theory Spec2Isabelle
  imports Complex_Main "HOL-Library.Word" "HOL-Library.List_Lexorder" "HOL-Library.Char_ord"
begin

section \<open>The Lua interpreter as seen through its C API\<close>

text \<open>
  \<^verbatim>\<open>LuaContext\<close> (src/src/context.cpp) is a wrapper around a \<^verbatim>\<open>lua_State *\<close>.
  The interpreter itself is a third-party library; what the wrapper relies on is modelled
  here: a state has a value stack, a table of global variables and is either open or
  closed. Values are identified by the API call that pushed them. Numbers
  (\<^verbatim>\<open>lua_Number\<close>, a double) are only carried around by the wrapper, never computed
  with, and are represented by reals; \<^verbatim>\<open>lua_Integer\<close> is a 64-bit word; a
  \<^verbatim>\<open>void *\<close> and a \<^verbatim>\<open>lua_CFunction\<close> are addresses.
\<close>

type_synonym lua_Number = real
type_synonym lua_Integer = "64 word"
type_synonym pointer = nat
type_synonym lua_CFunction = nat

datatype lua_value =
    LNil
  | LString string
  | LBoolean bool
  | LNumber lua_Number
  | LInteger lua_Integer
  | LCFunction lua_CFunction
  | LUsertype pointer string
  | LLib string
  | LLibFunction string string

record lua_State =
  stack :: "lua_value list"
  globals :: "string \<Rightarrow> lua_value"
  is_open :: bool

text \<open>A state as \<^verbatim>\<open>luaL_newstate\<close> returns it, and the memory before it is allocated.\<close>

definition new_lua_State :: lua_State where
  "new_lua_State = \<lparr>stack = [], globals = (\<lambda>n. LNil), is_open = True\<rparr>"

definition no_lua_State :: lua_State where
  "no_lua_State = \<lparr>stack = [], globals = (\<lambda>n. LNil), is_open = False\<rparr>"

definition standard_libs :: "string list" where
  "standard_libs = [''_G'', ''coroutine'', ''debug'', ''io'', ''math'', ''os'',
                    ''package'', ''string'', ''table'']"

definition luaL_openlibs :: "lua_State \<Rightarrow> lua_State" where
  "luaL_openlibs s =
     s\<lparr>globals := (\<lambda>n. if n \<in> set standard_libs then LLib n else globals s n)\<rparr>"

definition lua_gettop :: "lua_State \<Rightarrow> int" where
  "lua_gettop s = int (length (stack s))"

text \<open>
  Stack indices: \<open>1\<close> is the bottom, \<open>-1\<close> the top. An index outside the stack is
  outside the API's contract; the model leaves the state as it is there.
\<close>

definition index2pos :: "lua_State \<Rightarrow> int \<Rightarrow> nat option" where
  "index2pos s idx =
     (if 0 < idx \<and> idx \<le> lua_gettop s then Some (nat (idx - 1))
      else if idx < 0 \<and> - idx \<le> lua_gettop s then Some (nat (lua_gettop s + idx))
      else None)"

definition lua_push :: "lua_value \<Rightarrow> lua_State \<Rightarrow> lua_State" where
  "lua_push v s = s\<lparr>stack := stack s @ [v]\<rparr>"

definition lua_settop :: "int \<Rightarrow> lua_State \<Rightarrow> lua_State" where
  "lua_settop idx s =
     (if 0 \<le> idx
      then s\<lparr>stack := take (nat idx) (stack s) @ replicate (nat idx - length (stack s)) LNil\<rparr>
      else if - (idx + 1) \<le> lua_gettop s
      then s\<lparr>stack := take (nat (lua_gettop s + idx + 1)) (stack s)\<rparr>
      else s)"

text \<open>\<^verbatim>\<open>#define lua_pop(L,n) lua_settop(L, -(n)-1)\<close>\<close>

definition lua_pop :: "int \<Rightarrow> lua_State \<Rightarrow> lua_State" where
  "lua_pop n s = lua_settop (- n - 1) s"

definition lua_remove :: "int \<Rightarrow> lua_State \<Rightarrow> lua_State" where
  "lua_remove idx s =
     (case index2pos s idx of
        None \<Rightarrow> s
      | Some p \<Rightarrow> s\<lparr>stack := take p (stack s) @ drop (Suc p) (stack s)\<rparr>)"

definition lua_setglobal :: "string \<Rightarrow> lua_State \<Rightarrow> lua_State" where
  "lua_setglobal name s =
     (if stack s = [] then s
      else s\<lparr>globals := (globals s)(name := last (stack s)), stack := butlast (stack s)\<rparr>)"

definition lua_getglobal :: "string \<Rightarrow> lua_State \<Rightarrow> lua_State" where
  "lua_getglobal name s = lua_push (globals s name) s"

fun field_of :: "lua_value \<Rightarrow> string \<Rightarrow> lua_value" where
  "field_of (LLib m) k = LLibFunction m k"
| "field_of v k = LNil"

definition lua_getfield :: "int \<Rightarrow> string \<Rightarrow> lua_State \<Rightarrow> lua_State" where
  "lua_getfield idx k s =
     (case index2pos s idx of
        None \<Rightarrow> s
      | Some p \<Rightarrow> lua_push (field_of (stack s ! p) k) s)"

definition lua_close :: "lua_State \<Rightarrow> lua_State" where
  "lua_close s = s\<lparr>is_open := False\<rparr>"


section \<open>Exceptions, the outside world and the trace of calls\<close>

text \<open>
  Every \<^verbatim>\<open>throw\<close> of context.cpp raises \<^verbatim>\<open>Exception\<close> or one of its subclasses
  \<^verbatim>\<open>LuaRuntimeException\<close> and \<^verbatim>\<open>LuaErrorException\<close> (exceptions.h; the
  \<^verbatim>\<open>USE_ROS\<close> branches are the ones modelled). \<open>Not_Exception\<close> is any thrown
  value whose type does not derive from \<^verbatim>\<open>Exception\<close>, named by its type: a
  \<^verbatim>\<open>std::logic_error\<close> of the standard library, or whatever a watcher throws. The
  handler \<^verbatim>\<open>catch (Exception &e)\<close> catches the first three and lets a
  \<open>Not_Exception\<close> pass; \<^verbatim>\<open>catch (...)\<close> catches all four.
\<close>

datatype exn =
    Exception string
  | LuaRuntimeException string string
  | LuaErrorException string string
  | Not_Exception string

fun is_Exception :: "exn \<Rightarrow> bool" where
  "is_Exception (Not_Exception n) = False"
| "is_Exception x = True"

datatype 'a result = Returned 'a | Threw exn

text \<open>
  \<^verbatim>\<open>try { ... } catch (Exception &e) { /* log */ }\<close> around a computation that
  leaves \<open>a\<close> behind.
\<close>

definition catch_Exception :: "unit result \<times> 'a \<Rightarrow> unit result \<times> 'a" where
  "catch_Exception r =
     (case r of
        (Returned u, a) \<Rightarrow> (Returned u, a)
      | (Threw x, a) \<Rightarrow> if is_Exception x then (Returned (), a) else (Threw x, a))"

type_synonym lua_ref = nat
type_synonym watcher = nat

text \<open>
  What happens outside the wrapper is a parameter of every operation: the file system
  (\<^verbatim>\<open>access(path, R_OK)\<close>), the interpreter loading and running Lua code, and the
  watchers' callbacks. Lua code and callbacks may change the interpreter state they are
  given in any way; each returns the state it leaves behind. The loaders and
  \<^verbatim>\<open>lua_pcall\<close> return Lua's status code (\<open>0\<close> for success) and leave the error
  value on top of the stack; a callback returns the exception it throws, if any.
  \<^verbatim>\<open>vasprintf\<close> may fail to allocate the text it is to build, and the text Lua
  gives for a number is Lua's business.
\<close>

record env =
  access_R_OK :: "string \<Rightarrow> bool"
  vasprintf_fails :: "string \<Rightarrow> bool"
  lua_number2str :: "lua_Number \<Rightarrow> string"
  lua_integer2str :: "lua_Integer \<Rightarrow> string"
  luaL_loadstring :: "string \<Rightarrow> lua_State \<Rightarrow> int \<times> lua_State"
  luaL_loadfile :: "string \<Rightarrow> lua_State \<Rightarrow> int \<times> lua_State"
  lua_pcall :: "int \<Rightarrow> lua_State \<Rightarrow> int \<times> lua_State"
  lua_init :: "watcher \<Rightarrow> lua_State \<Rightarrow> exn option \<times> lua_State"
  lua_finalize :: "watcher \<Rightarrow> lua_State \<Rightarrow> exn option \<times> lua_State"
  lua_restarted :: "watcher \<Rightarrow> lua_State \<Rightarrow> exn option \<times> lua_State"

text \<open>
  \<^verbatim>\<open>lua_tostring(L, idx)\<close>: the text of a string or a number, \<^verbatim>\<open>NULL\<close>
  (\<open>None\<close>) for every other value and where there is no value.
\<close>

fun string_of :: "env \<Rightarrow> lua_value \<Rightarrow> string option" where
  "string_of e (LString m) = Some m"
| "string_of e (LNumber n) = Some (lua_number2str e n)"
| "string_of e (LInteger i) = Some (lua_integer2str e i)"
| "string_of e v = None"

definition lua_tostring :: "env \<Rightarrow> int \<Rightarrow> lua_State \<Rightarrow> string option" where
  "lua_tostring e idx s =
     (case index2pos s idx of None \<Rightarrow> None | Some p \<Rightarrow> string_of e (stack s ! p))"

definition LUA_ERRRUN :: int where "LUA_ERRRUN = 2"
definition LUA_ERRSYNTAX :: int where "LUA_ERRSYNTAX = 3"
definition LUA_ERRMEM :: int where "LUA_ERRMEM = 4"
definition LUA_ERRERR :: int where "LUA_ERRERR = 5"
definition LUA_ERRFILE :: int where "LUA_ERRFILE = 6"

text \<open>
  The trace records, in order, the Lua code the wrapper runs, the callbacks it makes and
  the states it closes, each with the interpreter state concerned.
\<close>

datatype event =
    DoString lua_ref string
  | DoFile lua_ref string
  | Init watcher lua_ref
  | Finalize watcher lua_ref
  | Restarted watcher lua_ref
  | Close lua_ref

record world =
  heap :: "lua_ref \<Rightarrow> lua_State"
  next_ref :: lua_ref
  trace :: "event list"

definition empty_world :: world where
  "empty_world = \<lparr>heap = (\<lambda>r. no_lua_State), next_ref = 0, trace = []\<rparr>"

definition on_state :: "lua_ref \<Rightarrow> (lua_State \<Rightarrow> lua_State) \<Rightarrow> world \<Rightarrow> world" where
  "on_state L f w = w\<lparr>heap := (heap w)(L := f (heap w L))\<rparr>"

definition emit :: "event \<Rightarrow> world \<Rightarrow> world" where
  "emit ev w = w\<lparr>trace := trace w @ [ev]\<rparr>"

definition newstate :: "world \<Rightarrow> lua_ref \<times> world" where
  "newstate w =
     (next_ref w, w\<lparr>heap := (heap w)(next_ref w := new_lua_State), next_ref := Suc (next_ref w)\<rparr>)"

definition close_state :: "lua_ref \<Rightarrow> world \<Rightarrow> world" where
  "close_state L w = emit (Close L) (on_state L lua_close w)"

text \<open>
  A call that works on the interpreter state \<open>L\<close> points to: the call is recorded, it is
  given the state found at \<open>L\<close>, and the state it leaves behind is stored there.
\<close>

definition run_on :: "event \<Rightarrow> lua_ref \<Rightarrow> (lua_State \<Rightarrow> 'a \<times> lua_State) \<Rightarrow> world \<Rightarrow> 'a \<times> world" where
  "run_on ev L f w0 =
     (let w = emit ev w0; (x, s') = f (heap w L) in (x, on_state L (\<lambda>u. s') w))"

text \<open>Statements in sequence: the second runs only if the first did not throw.\<close>

definition and_then ::
  "unit result \<times> world \<Rightarrow> (world \<Rightarrow> 'a result \<times> world) \<Rightarrow> 'a result \<times> world" where
  "and_then m f = (case m of (Returned u, w) \<Rightarrow> f w | (Threw x, w) \<Rightarrow> (Threw x, w))"


section \<open>The containers of the context\<close>

text \<open>
  A \<^verbatim>\<open>std::map<std::string, T>\<close> is the list of its entries in key order, which is
  the order its iterators visit; \<^verbatim>\<open>m[k] = v\<close>, \<^verbatim>\<open>find\<close> and \<^verbatim>\<open>erase\<close>
  are the three operations the context uses.
\<close>

type_synonym 'v std_map = "(string \<times> 'v) list"

fun map_assign :: "string \<Rightarrow> 'v \<Rightarrow> 'v std_map \<Rightarrow> 'v std_map" where
  "map_assign k v [] = [(k, v)]"
| "map_assign k v ((k', v') # m) =
     (if k = k' then (k, v) # m
      else if k < k' then (k, v) # (k', v') # m
      else (k', v') # map_assign k v m)"

definition map_find :: "'v std_map \<Rightarrow> string \<Rightarrow> 'v option" where
  "map_find m k = map_of m k"

definition map_erase :: "string \<Rightarrow> 'v std_map \<Rightarrow> 'v std_map" where
  "map_erase k m = filter (\<lambda>kv. fst kv \<noteq> k) m"

definition is_std_map :: "'v std_map \<Rightarrow> bool" where
  "is_std_map m = sorted_wrt (<) (map fst m)"

text \<open>
  Modelled from the spec: \<^verbatim>\<open>FileAlterationMonitor\<close> (lua_utils/fam.h) is not among
  the sources. The spec calls it a file-watch utility consumed by this code; the context
  calls \<^verbatim>\<open>add_filter\<close>, \<^verbatim>\<open>add_listener\<close>, \<^verbatim>\<open>watch_dir\<close> and
  \<^verbatim>\<open>watch_file\<close>, which are taken to record their argument. The only listener the
  context ever registers is itself.
\<close>

datatype listener = This_LuaContext

record FileAlterationMonitor =
  fam_filters :: "string list"
  fam_listeners :: "listener list"
  fam_dirs :: "string list"
  fam_files :: "string list"

definition new_FileAlterationMonitor :: FileAlterationMonitor where
  "new_FileAlterationMonitor =
     \<lparr>fam_filters = [], fam_listeners = [], fam_dirs = [], fam_files = []\<rparr>"

definition add_filter :: "string \<Rightarrow> FileAlterationMonitor \<Rightarrow> FileAlterationMonitor" where
  "add_filter r f = f\<lparr>fam_filters := fam_filters f @ [r]\<rparr>"

definition add_listener :: "listener \<Rightarrow> FileAlterationMonitor \<Rightarrow> FileAlterationMonitor" where
  "add_listener l f = f\<lparr>fam_listeners := fam_listeners f @ [l]\<rparr>"

definition watch_dir :: "string \<Rightarrow> FileAlterationMonitor \<Rightarrow> FileAlterationMonitor" where
  "watch_dir p f = f\<lparr>fam_dirs := fam_dirs f @ [p]\<rparr>"

definition watch_file :: "string \<Rightarrow> FileAlterationMonitor \<Rightarrow> FileAlterationMonitor" where
  "watch_file p f = f\<lparr>fam_files := fam_files f @ [p]\<rparr>"


section \<open>LuaContext\<close>

text \<open>
  The fields of the class (include/lua_utils/context.h), without the iterators and the
  mutex. \<open>ctx_L\<close> is \<^verbatim>\<open>__L\<close>; the other fields keep their names without the
  leading underscores. Watchers are identified by their address.
\<close>

record LuaContext =
  ctx_L :: lua_ref
  owns_L :: bool
  enable_tracebacks :: bool
  start_script :: "string option"
  package_dirs :: "string list"
  cpackage_dirs :: "string list"
  packages :: "string list"
  usertypes :: "(pointer \<times> string) std_map"
  strings :: "string std_map"
  booleans :: "bool std_map"
  numbers :: "lua_Number std_map"
  integers :: "lua_Integer std_map"
  cfunctions :: "lua_CFunction std_map"
  fam :: "FileAlterationMonitor option"
  watchers :: "watcher list"

subsection \<open>Running Lua code\<close>

definition errfunc_of :: "LuaContext \<Rightarrow> int" where
  "errfunc_of c = (if enable_tracebacks c then 1 else 0)"

text \<open>
  \<^verbatim>\<open>do_string(lua_State *L, const char *format, ...)\<close>; \<open>s\<close> is the text the
  format expands to. If \<^verbatim>\<open>vasprintf\<close> fails an \<^verbatim>\<open>Exception\<close> is thrown before
  Lua is called. Otherwise
  \<^verbatim>\<open>luaL_loadstring(L, s) || lua_pcall(L, 0, LUA_MULTRET, errfunc)\<close>, and on a non-zero
  status \<^verbatim>\<open>std::string errmsg = lua_tostring(L, -1)\<close>, \<^verbatim>\<open>lua_pop(L, 1)\<close> and the
  throw. Where \<^verbatim>\<open>lua_tostring\<close> gives \<^verbatim>\<open>NULL\<close> the string cannot be built: the
  standard library throws \<^verbatim>\<open>std::logic_error\<close>, and nothing is popped.
\<close>

definition do_string_state :: "env \<Rightarrow> LuaContext \<Rightarrow> string \<Rightarrow> lua_State \<Rightarrow> unit result \<times> lua_State" where
  "do_string_state e c s s0 =
     (if vasprintf_fails e s
      then (Threw (Exception ''LuaContext::do_string: Could not form string''), s0)
      else
        (let (rv1, s1) = luaL_loadstring e s s0;
             (rv, s2) = (if rv1 \<noteq> 0 then (rv1, s1) else lua_pcall e (errfunc_of c) s1)
         in if rv \<noteq> 0
            then (case lua_tostring e (- 1) s2 of
                    None \<Rightarrow> (Threw (Not_Exception ''std::logic_error''), s2)
                  | Some errmsg \<Rightarrow>
                      (Threw (LuaRuntimeException ''do_string'' errmsg), lua_pop 1 s2))
            else (Returned (), s2)))"

definition do_string_L :: "env \<Rightarrow> LuaContext \<Rightarrow> lua_ref \<Rightarrow> string \<Rightarrow> world \<Rightarrow> unit result \<times> world" where
  "do_string_L e c L s w = run_on (DoString L s) L (do_string_state e c s) w"

definition do_string :: "env \<Rightarrow> LuaContext \<Rightarrow> string \<Rightarrow> world \<Rightarrow> unit result \<times> world" where
  "do_string e c s w = do_string_L e c (ctx_L c) s w"

text \<open>
  \<^verbatim>\<open>do_file(lua_State *L, const char *filename)\<close>, its two statements in turn. A
  load status that none of the three \<^verbatim>\<open>case\<close> labels matches leaves the
  \<^verbatim>\<open>switch\<close> with the message popped and goes on to \<^verbatim>\<open>lua_pcall\<close>, as the
  source does. Here a \<^verbatim>\<open>NULL\<close> from \<^verbatim>\<open>lua_tostring\<close> is assigned to a
  \<^verbatim>\<open>std::string\<close> that already exists, which is outside the contract of the
  standard library; the model lets it end the call as the constructor does in
  \<^verbatim>\<open>do_string\<close>, before the pop and with something that is not an
  \<^verbatim>\<open>Exception\<close>.
\<close>

definition do_file_call :: "env \<Rightarrow> LuaContext \<Rightarrow> string \<Rightarrow> lua_State \<Rightarrow> unit result \<times> lua_State" where
  "do_file_call e c filename s1 =
     (let (err, s2) = lua_pcall e (errfunc_of c) s1
      in if err = 0 then (Returned (), s2)
         else
           (case lua_tostring e (- 1) s2 of
              None \<Rightarrow> (Threw (Not_Exception ''std::logic_error''), s2)
            | Some errmsg \<Rightarrow>
                (let s2' = lua_pop 1 s2
                 in if err = LUA_ERRRUN
                    then (Threw (LuaRuntimeException ''do_file'' errmsg), s2')
                    else if err = LUA_ERRMEM
                    then (Threw (Exception
                                  (''Out of Memory. Could not execute Lua file '' @ filename)),
                          s2')
                    else if err = LUA_ERRERR
                    then (Threw (LuaErrorException ''do_file'' errmsg), s2')
                    else (Threw (LuaErrorException ''do_file/unknown error'' errmsg), s2'))))"

definition do_file_state :: "env \<Rightarrow> LuaContext \<Rightarrow> string \<Rightarrow> lua_State \<Rightarrow> unit result \<times> lua_State" where
  "do_file_state e c filename s0 =
     (let (err, s1) = luaL_loadfile e filename s0
      in if err = 0 then do_file_call e c filename s1
         else
           (case lua_tostring e (- 1) s1 of
              None \<Rightarrow> (Threw (Not_Exception ''std::logic_error''), s1)
            | Some errmsg \<Rightarrow>
                (let s1' = lua_pop 1 s1
                 in if err = LUA_ERRSYNTAX
                    then (Threw (Exception
                                  (''Lua syntax error in file '' @ filename @ '': '' @ errmsg)),
                          s1')
                    else if err = LUA_ERRMEM
                    then (Threw (Exception
                                  (''Out of Memory. Could not load Lua file '' @ filename)),
                          s1')
                    else if err = LUA_ERRFILE
                    then (Threw (Exception
                                  (''Could not open file file '' @ filename @ '': '' @ errmsg)),
                          s1')
                    else do_file_call e c filename s1')))"

definition do_file_L :: "env \<Rightarrow> LuaContext \<Rightarrow> lua_ref \<Rightarrow> string \<Rightarrow> world \<Rightarrow> unit result \<times> world" where
  "do_file_L e c L filename w = run_on (DoFile L filename) L (do_file_state e c filename) w"

definition do_file :: "env \<Rightarrow> LuaContext \<Rightarrow> string \<Rightarrow> world \<Rightarrow> unit result \<times> world" where
  "do_file e c filename w = do_file_L e c (ctx_L c) filename w"

text \<open>The three pieces of Lua code the context builds with a format string.\<close>

definition dquote :: string where
  "dquote = [CHR 0x22]"

definition package_path_code :: "string \<Rightarrow> string" where
  "package_path_code p =
     ''package.path = package.path .. '' @ dquote @ '';'' @ p @ ''/?.lua;'' @ p
       @ ''/?/init.lua'' @ dquote"

definition package_cpath_code :: "string \<Rightarrow> string" where
  "package_cpath_code p =
     ''package.cpath = package.cpath .. '' @ dquote @ '';'' @ p @ ''/?.so'' @ dquote"

definition require_code :: "string \<Rightarrow> string" where
  "require_code p = ''require('' @ dquote @ p @ dquote @ '')''"

fun do_strings :: "env \<Rightarrow> LuaContext \<Rightarrow> lua_ref \<Rightarrow> string list \<Rightarrow> world \<Rightarrow> unit result \<times> world" where
  "do_strings e c L [] w = (Returned (), w)"
| "do_strings e c L (s # ss) w = and_then (do_string_L e c L s w) (do_strings e c L ss)"

subsection \<open>init\_state\<close>

text \<open>A push followed by \<^verbatim>\<open>lua_setglobal(L, name)\<close>, for every entry of a map.\<close>

definition set_globals :: "lua_ref \<Rightarrow> ('v \<Rightarrow> lua_value) \<Rightarrow> 'v std_map \<Rightarrow> world \<Rightarrow> world" where
  "set_globals L mk m w =
     fold (\<lambda>kv. on_state L (\<lambda>s. lua_setglobal (fst kv) (lua_push (mk (snd kv)) s))) m w"

definition usertype_value :: "pointer \<times> string \<Rightarrow> lua_value" where
  "usertype_value dt = LUsertype (fst dt) (snd dt)"

text \<open>Lines 157 to 164: the new state, its libraries and the traceback function.\<close>

definition open_state :: "LuaContext \<Rightarrow> world \<Rightarrow> lua_ref \<times> world" where
  "open_state c w =
     (let (L, w1) = newstate w;
          w2 = on_state L luaL_openlibs w1;
          w3 = (if enable_tracebacks c
                then on_state L (\<lambda>s. lua_remove (- 2)
                       (lua_getfield (- 1) ''traceback'' (lua_getglobal ''debug'' s))) w2
                else w2)
      in (L, w3))"

text \<open>Lines 166 to 208: package paths, base packages and the six maps of globals.\<close>

definition replay_bindings :: "LuaContext \<Rightarrow> lua_ref \<Rightarrow> world \<Rightarrow> world" where
  "replay_bindings c L w =
     set_globals L LCFunction (cfunctions c)
      (set_globals L LInteger (integers c)
        (set_globals L LNumber (numbers c)
          (set_globals L LBoolean (booleans c)
            (set_globals L LString (strings c)
              (set_globals L usertype_value (usertypes c) w)))))"

definition replay :: "env \<Rightarrow> LuaContext \<Rightarrow> lua_ref \<Rightarrow> world \<Rightarrow> unit result \<times> world" where
  "replay e c L w =
     and_then (do_strings e c L (map package_path_code (package_dirs c)) w) (\<lambda>w1.
     and_then (do_strings e c L (map package_cpath_code (cpackage_dirs c)) w1) (\<lambda>w2.
     and_then (do_strings e c L (map require_code (packages c)) w2) (\<lambda>w3.
       (Returned (), replay_bindings c L w3))))"

text \<open>
  Lines 210 to 226: every watcher's \<^verbatim>\<open>lua_init\<close> is called with a temporary wrapper
  context around \<open>L\<close>; if one throws, the wrapper is deleted, \<open>L\<close> is closed and the
  exception is thrown again.
\<close>

fun init_watchers :: "env \<Rightarrow> lua_ref \<Rightarrow> watcher list \<Rightarrow> world \<Rightarrow> unit result \<times> world" where
  "init_watchers e L [] w = (Returned (), w)"
| "init_watchers e L (i # is) w =
     (case run_on (Init i L) L (lua_init e i) w of
        (Some x, w') \<Rightarrow> (Threw x, close_state L w')
      | (None, w') \<Rightarrow> init_watchers e L is w')"

text \<open>Lines 228 to 235, and the same test in \<^verbatim>\<open>set_start_script\<close>.\<close>

definition run_script :: "env \<Rightarrow> LuaContext \<Rightarrow> lua_ref \<Rightarrow> string \<Rightarrow> world \<Rightarrow> unit result \<times> world" where
  "run_script e c L script w =
     (if access_R_OK e script then do_file_L e c L script w
      else do_string_L e c L (require_code script) w)"

definition init_state :: "env \<Rightarrow> LuaContext \<Rightarrow> world \<Rightarrow> lua_ref result \<times> world" where
  "init_state e c w =
     (let (L, w0) = open_state c w in
      and_then (replay e c L w0) (\<lambda>w1.
      and_then (init_watchers e L (watchers c) w1) (\<lambda>w2.
      and_then (case start_script c of
                  None \<Rightarrow> (Returned (), w2)
                | Some script \<Rightarrow> run_script e c L script w2) (\<lambda>w3.
        (Returned L, w3)))))"


subsection \<open>Construction, destruction and restart\<close>

definition lua_filter :: string where
  "lua_filter = ''^[^.].*'' @ [CHR 0x5C] @ ''.lua$''"

text \<open>
  \<^verbatim>\<open>LuaContext(bool watch_dirs, bool enable_tracebacks)\<close>. \<^verbatim>\<open>__L\<close> is not read
  before \<^verbatim>\<open>init_state\<close> has returned its value.
\<close>

definition LuaContext_new :: "env \<Rightarrow> bool \<Rightarrow> bool \<Rightarrow> world \<Rightarrow> LuaContext result \<times> world" where
  "LuaContext_new e watch_dirs tracebacks w =
     (let c = \<lparr>ctx_L = 0, owns_L = True, enable_tracebacks = tracebacks,
                start_script = None, package_dirs = [], cpackage_dirs = [], packages = [],
                usertypes = [], strings = [], booleans = [], numbers = [], integers = [],
                cfunctions = [],
                fam = (if watch_dirs
                       then Some (add_listener This_LuaContext
                                   (add_filter lua_filter new_FileAlterationMonitor))
                       else None),
                watchers = []\<rparr>
      in case init_state e c w of
           (Returned L, w') \<Rightarrow> (Returned (c\<lparr>ctx_L := L\<rparr>), w')
         | (Threw x, w') \<Rightarrow> (Threw x, w'))"

text \<open>
  \<^verbatim>\<open>LuaContext(lua_State *L)\<close>, the wrapper constructor. It leaves
  \<^verbatim>\<open>__enable_tracebacks\<close> unset; the value the field happens to have is the first
  argument.
\<close>

definition LuaContext_wrap :: "bool \<Rightarrow> lua_ref \<Rightarrow> LuaContext" where
  "LuaContext_wrap tracebacks L =
     \<lparr>ctx_L = L, owns_L = False, enable_tracebacks = tracebacks,
      start_script = None, package_dirs = [], cpackage_dirs = [], packages = [],
      usertypes = [], strings = [], booleans = [], numbers = [], integers = [],
      cfunctions = [], fam = None, watchers = []\<rparr>"

text \<open>
  The loop over the watchers whose body is
  \<^verbatim>\<open>try { (*i)->lua_finalize(this); } catch (Exception &e) { /* log */ }\<close>, and its
  twin for \<^verbatim>\<open>lua_restarted\<close>: an \<^verbatim>\<open>Exception\<close> is dropped and the loop goes
  on, anything else leaves the loop. The callback is given \<^verbatim>\<open>this\<close>; it sees the
  state the context holds at that moment.
\<close>

fun notify_watchers ::
  "(watcher \<Rightarrow> event) \<Rightarrow> (watcher \<Rightarrow> lua_State \<Rightarrow> exn option \<times> lua_State) \<Rightarrow> lua_ref
     \<Rightarrow> watcher list \<Rightarrow> world \<Rightarrow> unit result \<times> world" where
  "notify_watchers ev f L [] w = (Returned (), w)"
| "notify_watchers ev f L (i # is) w =
     (case run_on (ev i) L (f i) w of
        (None, w') \<Rightarrow> notify_watchers ev f L is w'
      | (Some x, w') \<Rightarrow>
          if is_Exception x then notify_watchers ev f L is w' else (Threw x, w'))"

definition finalize_watchers :: "env \<Rightarrow> lua_ref \<Rightarrow> watcher list \<Rightarrow> world \<Rightarrow> unit result \<times> world" where
  "finalize_watchers e L ws w = notify_watchers (\<lambda>i. Finalize i L) (lua_finalize e) L ws w"

definition restarted_watchers :: "env \<Rightarrow> lua_ref \<Rightarrow> watcher list \<Rightarrow> world \<Rightarrow> unit result \<times> world" where
  "restarted_watchers e L ws w = notify_watchers (\<lambda>i. Restarted i L) (lua_restarted e) L ws w"

text \<open>
  \<^verbatim>\<open>~LuaContext()\<close>. What leaves the loop leaves the destructor, before
  \<^verbatim>\<open>lua_close\<close>.
\<close>

definition LuaContext_delete :: "env \<Rightarrow> LuaContext \<Rightarrow> world \<Rightarrow> unit result \<times> world" where
  "LuaContext_delete e c w =
     (if owns_L c
      then and_then (finalize_watchers e (ctx_L c) (watchers c) w)
             (\<lambda>w'. (Returned (), close_state (ctx_L c) w'))
      else (Returned (), w))"

text \<open>
  \<^verbatim>\<open>restart()\<close>: the statements inside its \<^verbatim>\<open>try\<close>, and the handler
  \<^verbatim>\<open>catch (Exception &e)\<close> around them.
\<close>

definition restart_body :: "env \<Rightarrow> LuaContext \<Rightarrow> world \<Rightarrow> unit result \<times> LuaContext \<times> world" where
  "restart_body e c w =
     (case init_state e c w of
        (Threw x, w1) \<Rightarrow> (Threw x, c, w1)
      | (Returned L, w1) \<Rightarrow>
          (let tL = ctx_L c
           in case finalize_watchers e (ctx_L c) (watchers c) w1 of
                (Threw x, w2) \<Rightarrow> (Threw x, c, w2)
              | (Returned u, w2) \<Rightarrow>
                  (let c' = c\<lparr>ctx_L := L\<rparr>;
                       w3 = close_state tL w2
                   in case restarted_watchers e (ctx_L c') (watchers c') w3 of
                        (r, w4) \<Rightarrow> (r, c', w4))))"

definition restart :: "env \<Rightarrow> LuaContext \<Rightarrow> world \<Rightarrow> unit result \<times> LuaContext \<times> world" where
  "restart e c w = catch_Exception (restart_body e c w)"

definition fam_event ::
  "env \<Rightarrow> string \<Rightarrow> nat \<Rightarrow> LuaContext \<Rightarrow> world \<Rightarrow> unit result \<times> LuaContext \<times> world" where
  "fam_event e filename msk c w = restart e c w"


subsection \<open>Packages and watched paths\<close>

definition fam_watch_dir :: "string \<Rightarrow> LuaContext \<Rightarrow> LuaContext" where
  "fam_watch_dir path c = c\<lparr>fam := map_option (watch_dir path) (fam c)\<rparr>"

definition add_package_dir ::
  "env \<Rightarrow> string \<Rightarrow> LuaContext \<Rightarrow> world \<Rightarrow> unit result \<times> LuaContext \<times> world" where
  "add_package_dir e path c w =
     (case do_string_L e c (ctx_L c) (package_path_code path) w of
        (Threw x, w') \<Rightarrow> (Threw x, c, w')
      | (Returned u, w') \<Rightarrow>
          (Returned (), fam_watch_dir path (c\<lparr>package_dirs := package_dirs c @ [path]\<rparr>), w'))"

definition add_cpackage_dir ::
  "env \<Rightarrow> string \<Rightarrow> LuaContext \<Rightarrow> world \<Rightarrow> unit result \<times> LuaContext \<times> world" where
  "add_cpackage_dir e path c w =
     (case do_string_L e c (ctx_L c) (package_cpath_code path) w of
        (Threw x, w') \<Rightarrow> (Threw x, c, w')
      | (Returned u, w') \<Rightarrow>
          (Returned (), fam_watch_dir path (c\<lparr>cpackage_dirs := cpackage_dirs c @ [path]\<rparr>), w'))"


definition add_watchdir :: "string \<Rightarrow> LuaContext \<Rightarrow> LuaContext" where
  "add_watchdir path c = fam_watch_dir path c"

definition add_watchfile :: "string \<Rightarrow> LuaContext \<Rightarrow> LuaContext" where
  "add_watchfile path c = c\<lparr>fam := map_option (watch_file path) (fam c)\<rparr>"

definition add_watcher :: "watcher \<Rightarrow> LuaContext \<Rightarrow> LuaContext" where
  "add_watcher i c = c\<lparr>watchers := watchers c @ [i]\<rparr>"

definition remove_watcher :: "watcher \<Rightarrow> LuaContext \<Rightarrow> LuaContext" where
  "remove_watcher i c = c\<lparr>watchers := filter (\<lambda>j. j \<noteq> i) (watchers c)\<rparr>"

subsection \<open>Global variables\<close>

definition has_key :: "'v std_map \<Rightarrow> string \<Rightarrow> bool" where
  "has_key m k = (map_find m k \<noteq> None)"

definition assert_unique_name :: "LuaContext \<Rightarrow> string \<Rightarrow> string \<Rightarrow> unit result" where
  "assert_unique_name c name type =
     (if type \<noteq> ''usertype'' \<and> has_key (usertypes c) name
      then Threw (Exception (''User type entry already exists for name '' @ name))
      else if type \<noteq> ''string'' \<and> has_key (strings c) name
      then Threw (Exception (''String entry already exists for name '' @ name))
      else if type \<noteq> ''boolean'' \<and> has_key (booleans c) name
      then Threw (Exception (''Boolean entry already exists for name '' @ name))
      else if type \<noteq> ''number'' \<and> has_key (numbers c) name
      then Threw (Exception (''Number entry already exists for name '' @ name))
      else if type \<noteq> ''integer'' \<and> has_key (integers c) name
      then Threw (Exception (''Integer entry already exists for name '' @ name))
      else if type \<noteq> ''cfunction'' \<and> has_key (cfunctions c) name
      then Threw (Exception (''Cfunction entry already exists for name '' @ name))
      else Returned ())"

definition push_setglobal :: "lua_value \<Rightarrow> string \<Rightarrow> LuaContext \<Rightarrow> world \<Rightarrow> world" where
  "push_setglobal v name c w = on_state (ctx_L c) (\<lambda>s. lua_setglobal name (lua_push v s)) w"

definition set_usertype ::
  "string \<Rightarrow> pointer \<Rightarrow> string \<Rightarrow> string option \<Rightarrow> LuaContext \<Rightarrow> world
     \<Rightarrow> unit result \<times> LuaContext \<times> world" where
  "set_usertype name data type_name name_space c w =
     (let type_n = (case name_space of None \<Rightarrow> type_name
                    | Some ns \<Rightarrow> ns @ ''::'' @ type_name)
      in case assert_unique_name c name ''usertype'' of
           Threw x \<Rightarrow> (Threw x, c, w)
         | Returned u \<Rightarrow>
             (Returned (), c\<lparr>usertypes := map_assign name (data, type_n) (usertypes c)\<rparr>,
              push_setglobal (LUsertype data type_n) name c w))"

definition set_string ::
  "string \<Rightarrow> string \<Rightarrow> LuaContext \<Rightarrow> world \<Rightarrow> unit result \<times> LuaContext \<times> world" where
  "set_string name v c w =
     (case assert_unique_name c name ''string'' of
        Threw x \<Rightarrow> (Threw x, c, w)
      | Returned u \<Rightarrow>
          (Returned (), c\<lparr>strings := map_assign name v (strings c)\<rparr>,
           push_setglobal (LString v) name c w))"

definition set_boolean ::
  "string \<Rightarrow> bool \<Rightarrow> LuaContext \<Rightarrow> world \<Rightarrow> unit result \<times> LuaContext \<times> world" where
  "set_boolean name v c w =
     (case assert_unique_name c name ''boolean'' of
        Threw x \<Rightarrow> (Threw x, c, w)
      | Returned u \<Rightarrow>
          (Returned (), c\<lparr>booleans := map_assign name v (booleans c)\<rparr>,
           push_setglobal (LBoolean v) name c w))"

definition set_number ::
  "string \<Rightarrow> lua_Number \<Rightarrow> LuaContext \<Rightarrow> world \<Rightarrow> unit result \<times> LuaContext \<times> world" where
  "set_number name v c w =
     (case assert_unique_name c name ''number'' of
        Threw x \<Rightarrow> (Threw x, c, w)
      | Returned u \<Rightarrow>
          (Returned (), c\<lparr>numbers := map_assign name v (numbers c)\<rparr>,
           push_setglobal (LNumber v) name c w))"

definition set_integer ::
  "string \<Rightarrow> lua_Integer \<Rightarrow> LuaContext \<Rightarrow> world \<Rightarrow> unit result \<times> LuaContext \<times> world" where
  "set_integer name v c w =
     (case assert_unique_name c name ''integer'' of
        Threw x \<Rightarrow> (Threw x, c, w)
      | Returned u \<Rightarrow>
          (Returned (), c\<lparr>integers := map_assign name v (integers c)\<rparr>,
           push_setglobal (LInteger v) name c w))"

definition set_cfunction ::
  "string \<Rightarrow> lua_CFunction \<Rightarrow> LuaContext \<Rightarrow> world \<Rightarrow> unit result \<times> LuaContext \<times> world" where
  "set_cfunction name v c w =
     (case assert_unique_name c name ''cfunction'' of
        Threw x \<Rightarrow> (Threw x, c, w)
      | Returned u \<Rightarrow>
          (Returned (), c\<lparr>cfunctions := map_assign name v (cfunctions c)\<rparr>,
           push_setglobal (LCFunction v) name c w))"

definition remove_global :: "string \<Rightarrow> LuaContext \<Rightarrow> world \<Rightarrow> LuaContext \<times> world" where
  "remove_global name c w =
     (c\<lparr>usertypes := map_erase name (usertypes c),
        strings := map_erase name (strings c),
        booleans := map_erase name (booleans c),
        numbers := map_erase name (numbers c),
        integers := map_erase name (integers c),
        cfunctions := map_erase name (cfunctions c)\<rparr>,
      push_setglobal LNil name c w)"

subsection \<open>The stack\<close>

definition stack_size :: "LuaContext \<Rightarrow> world \<Rightarrow> int" where
  "stack_size c w = lua_gettop (heap w (ctx_L c))"

definition pop :: "int \<Rightarrow> LuaContext \<Rightarrow> world \<Rightarrow> unit result \<times> world" where
  "pop n c w =
     (if enable_tracebacks c \<and> n \<ge> stack_size c w
      then (Threw (LuaRuntimeException ''pop'' ''Cannot pop traceback function, invalid n''), w)
      else (Returned (), on_state (ctx_L c) (lua_pop n) w))"

definition remove_idx :: "int \<Rightarrow> LuaContext \<Rightarrow> world \<Rightarrow> unit result \<times> world" where
  "remove_idx idx c w =
     (if enable_tracebacks c \<and> (idx = 1 \<or> idx = - stack_size c w)
      then (Threw (LuaRuntimeException ''pop'' ''Cannot remove traceback function''), w)
      else (Returned (), on_state (ctx_L c) (lua_remove idx) w))"


section \<open>Vocabulary for the properties\<close>

text \<open>
  The six kinds of binding, the six \<^verbatim>\<open>set_*\<close> calls as one datatype, the Lua value a
  call pushes, and the value a context has on record for a name in the map of a kind (as
  the Lua value \<^verbatim>\<open>init_state\<close> pushes for that entry).
\<close>

datatype kind = Usertype | String | Boolean | Number | Integer | Cfunction

datatype set_call =
    Set_usertype pointer string "string option"
  | Set_string string
  | Set_boolean bool
  | Set_number lua_Number
  | Set_integer lua_Integer
  | Set_cfunction lua_CFunction

fun kind_of :: "set_call \<Rightarrow> kind" where
  "kind_of (Set_usertype d t ns) = Usertype"
| "kind_of (Set_string v) = String"
| "kind_of (Set_boolean v) = Boolean"
| "kind_of (Set_number v) = Number"
| "kind_of (Set_integer v) = Integer"
| "kind_of (Set_cfunction v) = Cfunction"

fun kind_name :: "kind \<Rightarrow> string" where
  "kind_name Usertype = ''usertype''"
| "kind_name String = ''string''"
| "kind_name Boolean = ''boolean''"
| "kind_name Number = ''number''"
| "kind_name Integer = ''integer''"
| "kind_name Cfunction = ''cfunction''"

fun perform :: "string \<Rightarrow> set_call \<Rightarrow> LuaContext \<Rightarrow> world \<Rightarrow> unit result \<times> LuaContext \<times> world" where
  "perform name (Set_usertype d t ns) c w = set_usertype name d t ns c w"
| "perform name (Set_string v) c w = set_string name v c w"
| "perform name (Set_boolean v) c w = set_boolean name v c w"
| "perform name (Set_number v) c w = set_number name v c w"
| "perform name (Set_integer v) c w = set_integer name v c w"
| "perform name (Set_cfunction v) c w = set_cfunction name v c w"

fun pushed_value :: "set_call \<Rightarrow> lua_value" where
  "pushed_value (Set_usertype d t None) = LUsertype d t"
| "pushed_value (Set_usertype d t (Some ns)) = LUsertype d (ns @ ''::'' @ t)"
| "pushed_value (Set_string v) = LString v"
| "pushed_value (Set_boolean v) = LBoolean v"
| "pushed_value (Set_number v) = LNumber v"
| "pushed_value (Set_integer v) = LInteger v"
| "pushed_value (Set_cfunction v) = LCFunction v"

fun recorded :: "kind \<Rightarrow> LuaContext \<Rightarrow> string \<Rightarrow> lua_value option" where
  "recorded Usertype c name = map_option usertype_value (map_find (usertypes c) name)"
| "recorded String c name = map_option LString (map_find (strings c) name)"
| "recorded Boolean c name = map_option LBoolean (map_find (booleans c) name)"
| "recorded Number c name = map_option LNumber (map_find (numbers c) name)"
| "recorded Integer c name = map_option LInteger (map_find (integers c) name)"
| "recorded Cfunction c name = map_option LCFunction (map_find (cfunctions c) name)"

definition global_of :: "LuaContext \<Rightarrow> world \<Rightarrow> string \<Rightarrow> lua_value" where
  "global_of c w name = globals (heap w (ctx_L c)) name"

text \<open>
  The invariant of the six maps: each is a \<^verbatim>\<open>std::map\<close> (its keys strictly
  increasing), and no name is a key of two of them, which is what
  \<^verbatim>\<open>assert_unique_name\<close> maintains.
\<close>

definition all_names :: "LuaContext \<Rightarrow> string list" where
  "all_names c =
     map fst (usertypes c) @ map fst (strings c) @ map fst (booleans c)
       @ map fst (numbers c) @ map fst (integers c) @ map fst (cfunctions c)"

definition bindings_ok :: "LuaContext \<Rightarrow> bool" where
  "bindings_ok c =
     (is_std_map (usertypes c) \<and> is_std_map (strings c) \<and> is_std_map (booleans c)
      \<and> is_std_map (numbers c) \<and> is_std_map (integers c) \<and> is_std_map (cfunctions c)
      \<and> distinct (all_names c))"

text \<open>The events of \<^verbatim>\<open>init_state\<close>, phase by phase, and of the rest of a restart.\<close>

definition replay_events :: "LuaContext \<Rightarrow> lua_ref \<Rightarrow> event list" where
  "replay_events c L =
     map (\<lambda>p. DoString L (package_path_code p)) (package_dirs c)
       @ map (\<lambda>p. DoString L (package_cpath_code p)) (cpackage_dirs c)
       @ map (\<lambda>p. DoString L (require_code p)) (packages c)"

definition script_event :: "env \<Rightarrow> lua_ref \<Rightarrow> string \<Rightarrow> event" where
  "script_event e L script =
     (if access_R_OK e script then DoFile L script else DoString L (require_code script))"

definition script_events :: "env \<Rightarrow> LuaContext \<Rightarrow> lua_ref \<Rightarrow> event list" where
  "script_events e c L =
     (case start_script c of None \<Rightarrow> [] | Some script \<Rightarrow> [script_event e L script])"

definition init_events :: "env \<Rightarrow> LuaContext \<Rightarrow> lua_ref \<Rightarrow> event list" where
  "init_events e c L =
     replay_events c L @ map (\<lambda>i. Init i L) (watchers c) @ script_events e c L"

definition swap_events :: "LuaContext \<Rightarrow> lua_ref \<Rightarrow> event list" where
  "swap_events c L =
     map (\<lambda>i. Finalize i (ctx_L c)) (watchers c) @ [Close (ctx_L c)]
       @ map (\<lambda>i. Restarted i L) (watchers c)"

text \<open>
  What the calls into Lua amount to, written with the interpreter's own functions only.
  A chunk goes well if its text could be built, \<^verbatim>\<open>luaL_loadstring\<close> returned
  \<open>0\<close> and \<^verbatim>\<open>lua_pcall\<close> of what it loaded returned \<open>0\<close>; the state it
  leaves is the one \<^verbatim>\<open>lua_pcall\<close> leaves. The same for a file and
  \<^verbatim>\<open>luaL_loadfile\<close>, and for a list of chunks run one after the other.
\<close>

definition chunk_state :: "env \<Rightarrow> LuaContext \<Rightarrow> string \<Rightarrow> lua_State \<Rightarrow> lua_State" where
  "chunk_state e c code s = snd (lua_pcall e (errfunc_of c) (snd (luaL_loadstring e code s)))"

definition chunk_ok :: "env \<Rightarrow> LuaContext \<Rightarrow> string \<Rightarrow> lua_State \<Rightarrow> bool" where
  "chunk_ok e c code s =
     (\<not> vasprintf_fails e code \<and> fst (luaL_loadstring e code s) = 0
      \<and> fst (lua_pcall e (errfunc_of c) (snd (luaL_loadstring e code s))) = 0)"



definition file_state :: "env \<Rightarrow> LuaContext \<Rightarrow> string \<Rightarrow> lua_State \<Rightarrow> lua_State" where
  "file_state e c f s = snd (lua_pcall e (errfunc_of c) (snd (luaL_loadfile e f s)))"

definition file_ok :: "env \<Rightarrow> LuaContext \<Rightarrow> string \<Rightarrow> lua_State \<Rightarrow> bool" where
  "file_ok e c f s =
     (fst (luaL_loadfile e f s) = 0
      \<and> fst (lua_pcall e (errfunc_of c) (snd (luaL_loadfile e f s))) = 0)"

text \<open>
  The start script: a readable file is loaded with \<^verbatim>\<open>luaL_loadfile\<close> and called,
  anything else is required as a module. \<^verbatim>\<open>luaL_loadfile\<close> is documented to
  return \<open>0\<close>, \<^verbatim>\<open>LUA_ERRSYNTAX\<close>, \<^verbatim>\<open>LUA_ERRMEM\<close> or
  \<^verbatim>\<open>LUA_ERRFILE\<close>.
\<close>

definition script_ok :: "env \<Rightarrow> LuaContext \<Rightarrow> string \<Rightarrow> lua_State \<Rightarrow> bool" where
  "script_ok e c script s =
     (if access_R_OK e script then file_ok e c script s
      else chunk_ok e c (require_code script) s)"

definition script_state :: "env \<Rightarrow> LuaContext \<Rightarrow> string \<Rightarrow> lua_State \<Rightarrow> lua_State" where
  "script_state e c script s =
     (if access_R_OK e script then file_state e c script s
      else chunk_state e c (require_code script) s)"

definition documented_status :: "env \<Rightarrow> string \<Rightarrow> lua_State \<Rightarrow> bool" where
  "documented_status e script s =
     (access_R_OK e script \<longrightarrow>
        fst (luaL_loadfile e script s) \<in> {0, LUA_ERRSYNTAX, LUA_ERRMEM, LUA_ERRFILE})"


text \<open>
  What calling one callback of every watcher in turn amounts to: the state they leave one
  after the other, whether none of them throws, and whether a callback throws nothing
  but \<^verbatim>\<open>Exception\<close>s.
\<close>

fun notified :: "(watcher \<Rightarrow> lua_State \<Rightarrow> exn option \<times> lua_State) \<Rightarrow> watcher list \<Rightarrow> lua_State \<Rightarrow> lua_State" where
  "notified f [] s = s"
| "notified f (i # is) s = notified f is (snd (f i s))"

fun none_throws :: "(watcher \<Rightarrow> lua_State \<Rightarrow> exn option \<times> lua_State) \<Rightarrow> watcher list \<Rightarrow> lua_State \<Rightarrow> bool" where
  "none_throws f [] s = True"
| "none_throws f (i # is) s = (fst (f i s) = None \<and> none_throws f is (snd (f i s)))"

definition throws_Exceptions_only :: "(watcher \<Rightarrow> lua_State \<Rightarrow> exn option \<times> lua_State) \<Rightarrow> bool" where
  "throws_Exceptions_only f = (\<forall>i s x. fst (f i s) = Some x \<longrightarrow> is_Exception x)"



section \<open>The file monitor's side of a hot reload\<close>

text \<open>
  Modelled from the spec: how \<^verbatim>\<open>FileAlterationMonitor\<close> (lua_utils/fam.h, not among
  the sources) applies a filter. A filter is a POSIX regular expression that the name of
  the changed file has to match. Of the syntax, what the context's filter uses is
  modelled: \<^verbatim>\<open>^\<close> and \<^verbatim>\<open>$\<close> at the two ends, \<^verbatim>\<open>.\<close>, bracket expressions
  with and without \<^verbatim>\<open>^\<close>, a backslash before a literal character, \<^verbatim>\<open>*\<close> after an
  atom, and literal characters. Without an anchor the expression may match anywhere in the
  name.
\<close>

datatype rx_atom = Any | Lit char | OneOf "char list" | NoneOf "char list"

datatype rx_item = Once rx_atom | Star rx_atom

fun atom_ok :: "rx_atom \<Rightarrow> char \<Rightarrow> bool" where
  "atom_ok Any c = True"
| "atom_ok (Lit d) c = (c = d)"
| "atom_ok (OneOf cs) c = (c \<in> set cs)"
| "atom_ok (NoneOf cs) c = (c \<notin> set cs)"

fun items_match :: "rx_item list \<Rightarrow> string \<Rightarrow> bool" where
  "items_match [] s = (s = [])"
| "items_match (Once a # r) [] = False"
| "items_match (Once a # r) (c # s) = (atom_ok a c \<and> items_match r s)"
| "items_match (Star a # r) [] = items_match r []"
| "items_match (Star a # r) (c # s) =
     (items_match r (c # s) \<or> (atom_ok a c \<and> items_match (Star a # r) s))"

datatype scan_state = Plain | Escaped | SetStart | InSet bool "char list"

definition flush :: "rx_atom option \<Rightarrow> rx_item list" where
  "flush pend = (case pend of None \<Rightarrow> [] | Some a \<Rightarrow> [Once a])"

fun scan :: "scan_state \<Rightarrow> rx_atom option \<Rightarrow> string \<Rightarrow> rx_item list" where
  "scan st pend [] = flush pend"
| "scan Plain pend (c # s) =
     (if c = CHR ''*''
      then (case pend of
              Some a \<Rightarrow> Star a # scan Plain None s
            | None \<Rightarrow> scan Plain (Some (Lit c)) s)
      else flush pend @
           (if c = CHR 0x5C then scan Escaped None s
            else if c = CHR ''['' then scan SetStart None s
            else if c = CHR ''.'' then scan Plain (Some Any) s
            else scan Plain (Some (Lit c)) s))"
| "scan Escaped pend (c # s) = scan Plain (Some (Lit c)) s"
| "scan SetStart pend (c # s) =
     (if c = CHR ''^'' then scan (InSet True []) None s else scan (InSet False [c]) None s)"
| "scan (InSet neg cs) pend (c # s) =
     (if c = CHR '']''
      then scan Plain (Some (if neg then NoneOf cs else OneOf cs)) s
      else scan (InSet neg (cs @ [c])) None s)"

definition regex_match :: "string \<Rightarrow> string \<Rightarrow> bool" where
  "regex_match r name =
     (let (at_start, r1) = (case r of [] \<Rightarrow> (False, r)
                            | c # t \<Rightarrow> if c = CHR ''^'' then (True, t) else (False, r));
          (at_end, r2) = (if r1 \<noteq> [] \<and> last r1 = CHR ''$'' then (True, butlast r1)
                          else (False, r1))
      in items_match
           ((if at_start then [] else [Star Any]) @ scan Plain None r2
              @ (if at_end then [] else [Star Any]))
           name)"


text \<open>
  Modelled from the spec: the monitor's event loop (\<^verbatim>\<open>process_events\<close>, reached from
  \<^verbatim>\<open>LuaContext::process_fam_events\<close>) is not among the sources. The spec has the
  scripts reloaded when their backing files change on disk: a change of the file
  \<open>name\<close> in the directory \<open>dir\<close> is reported to the listeners, through
  \<^verbatim>\<open>fam_event\<close>, if the directory is watched and the name matches every filter.
\<close>

definition fam_reports :: "FileAlterationMonitor \<Rightarrow> string \<Rightarrow> string \<Rightarrow> bool" where
  "fam_reports f dir name =
     (dir \<in> set (fam_dirs f) \<and> list_all (\<lambda>r. regex_match r name) (fam_filters f))"

definition file_changed ::
  "env \<Rightarrow> string \<Rightarrow> string \<Rightarrow> nat \<Rightarrow> LuaContext \<Rightarrow> world
     \<Rightarrow> unit result \<times> LuaContext \<times> world" where
  "file_changed e dir name msk c w =
     (case fam c of
        None \<Rightarrow> (Returned (), c, w)
      | Some f \<Rightarrow>
          if fam_reports f dir name \<and> This_LuaContext \<in> set (fam_listeners f)
          then fam_event e name msk c w
          else (Returned (), c, w))"


text \<open>
  The names the spec calls non-hidden files with a .lua suffix, a context whose monitor
  is set up as the constructor does it, and the directories it watches.
\<close>

definition lua_module_name :: "string \<Rightarrow> bool" where
  "lua_module_name name =
     (\<exists>c rest. name = c # rest @ ''.lua'' \<and> c \<noteq> CHR ''.'')"

definition watching :: "LuaContext \<Rightarrow> bool" where
  "watching c =
     (case fam c of
        None \<Rightarrow> False
      | Some f \<Rightarrow> fam_filters f = [lua_filter] \<and> fam_listeners f = [This_LuaContext])"

definition watched_dirs :: "LuaContext \<Rightarrow> string list" where
  "watched_dirs c = (case fam c of None \<Rightarrow> [] | Some f \<Rightarrow> fam_dirs f)"


section \<open>A context to evaluate the properties on\<close>

text \<open>
  An outside world in which everything visibly happens: loading a chunk or a file pushes
  its text (its name), calling it leaves that on the stack as the result, and every
  callback pushes a mark of its own. \<^verbatim>\<open>lua_finalize\<close> and
  \<^verbatim>\<open>lua_restarted\<close> throw an \<^verbatim>\<open>Exception\<close> each time.
\<close>

definition example_env :: env where
  "example_env =
     \<lparr>access_R_OK = (\<lambda>p. p = ''/opt/start.lua''),
      vasprintf_fails = (\<lambda>s. False),
      lua_number2str = (\<lambda>n. ''0''),
      lua_integer2str = (\<lambda>i. ''0''),
      luaL_loadstring = (\<lambda>s st. (0, lua_push (LString s) st)),
      luaL_loadfile = (\<lambda>f st. (0, lua_push (LString f) st)),
      lua_pcall = (\<lambda>errfunc st. (0, st)),
      lua_init = (\<lambda>i st. (None, lua_push (LString ''init'') st)),
      lua_finalize = (\<lambda>i st. (Some (Exception ''busy''), lua_push (LString ''bye'') st)),
      lua_restarted = (\<lambda>i st. (Some (Exception ''late''), lua_push (LString ''hello'') st))\<rparr>"

definition example_ctx :: LuaContext where
  "example_ctx =
     \<lparr>ctx_L = 0, owns_L = True, enable_tracebacks = True,
      start_script = Some ''/opt/start.lua'',
      package_dirs = [''/opt/lua''], cpackage_dirs = [''/opt/lib''],
      packages = [''fawkesutils''],
      usertypes = [(''config'', (4096, ''fawkes::Configuration''))],
      strings = [(''ROBOT'', ''nao'')],
      booleans = [(''verbose'', True)],
      numbers = [(''rate'', 2.5)],
      integers = [(''port'', 1910)],
      cfunctions = [(''log_info'', 77)],
      fam = None, watchers = [7, 8]\<rparr>"

definition example_world :: world where
  "example_world =
     \<lparr>heap = (\<lambda>r. no_lua_State)
        (0 := (luaL_openlibs new_lua_State)\<lparr>stack := [LLibFunction ''debug'' ''traceback'']\<rparr>),
      next_ref = 1, trace = []\<rparr>"

text \<open>The same outside world, but the start script has a syntax error.\<close>

definition broken_script_env :: env where
  "broken_script_env =
     example_env\<lparr>luaL_loadfile :=
       (\<lambda>f st. (LUA_ERRSYNTAX, lua_push (LString ''unexpected symbol'') st))\<rparr>"

text \<open>
  The same outside world, but the first watcher's \<^verbatim>\<open>lua_finalize\<close> throws
  something that is not an \<^verbatim>\<open>Exception\<close>.
\<close>

definition foreign_throw_env :: env where
  "foreign_throw_env =
     example_env\<lparr>lua_finalize :=
       (\<lambda>i st. (if i = 7 then Some (Not_Exception ''std::bad_alloc'')
                  else Some (Exception ''busy''), st))\<rparr>"


text \<open>The example context with a monitor that watches one directory.\<close>

definition watching_ctx :: LuaContext where
  "watching_ctx =
     example_ctx\<lparr>fam := Some \<lparr>fam_filters = [lua_filter], fam_listeners = [This_LuaContext],
                                 fam_dirs = [''/opt/lua''], fam_files = []\<rparr>\<rparr>"


section \<open>Basic facts about the world\<close>

lemma heap_on_state [simp]:
  "heap (on_state L f w) L' = (if L' = L then f (heap w L) else heap w L')"
  by (simp add: on_state_def)

lemma trace_on_state [simp]: "trace (on_state L f w) = trace w"
  by (simp add: on_state_def)

lemma next_ref_on_state [simp]: "next_ref (on_state L f w) = next_ref w"
  by (simp add: on_state_def)

lemma heap_emit [simp]: "heap (emit ev w) = heap w"
  by (simp add: emit_def)

lemma trace_emit [simp]: "trace (emit ev w) = trace w @ [ev]"
  by (simp add: emit_def)

lemma next_ref_emit [simp]: "next_ref (emit ev w) = next_ref w"
  by (simp add: emit_def)

lemma trace_close_state [simp]: "trace (close_state L w) = trace w @ [Close L]"
  by (simp add: close_state_def)

lemma heap_close_state [simp]:
  "heap (close_state L w) L' = (if L' = L then lua_close (heap w L) else heap w L')"
  by (simp add: close_state_def)

lemma next_ref_close_state [simp]: "next_ref (close_state L w) = next_ref w"
  by (simp add: close_state_def)

lemma and_then_Returned [simp]: "and_then (Returned u, w) f = f w"
  by (simp add: and_then_def)

lemma and_then_Threw [simp]: "and_then (Threw x, w) f = (Threw x, w)"
  by (simp add: and_then_def)

lemma and_then_eq_Returned:
  "and_then m f = (Returned a, w') \<longleftrightarrow> (\<exists>w1. m = (Returned (), w1) \<and> f w1 = (Returned a, w'))"
  by (cases m; cases "fst m") (auto simp: and_then_def split: result.splits)

section \<open>Running Lua code\<close>

lemma run_on_eq:
  "run_on ev L f w =
     (fst (f (heap w L)), on_state L (\<lambda>u. snd (f (heap w L))) (emit ev w))"
  by (simp add: run_on_def Let_def split: prod.splits)

lemma trace_run_on [simp]: "trace (snd (run_on ev L f w)) = trace w @ [ev]"
  by (simp add: run_on_eq)

lemma next_ref_run_on [simp]: "next_ref (snd (run_on ev L f w)) = next_ref w"
  by (simp add: run_on_eq)

lemma heap_run_on_other: "L' \<noteq> L \<Longrightarrow> heap (snd (run_on ev L f w)) L' = heap w L'"
  by (simp add: run_on_eq)

lemma trace_do_string_L: "trace (snd (do_string_L e c L s w)) = trace w @ [DoString L s]"
  by (simp add: do_string_L_def)

lemma next_ref_do_string_L: "next_ref (snd (do_string_L e c L s w)) = next_ref w"
  by (simp add: do_string_L_def)

lemma heap_do_string_L_other:
  "L' \<noteq> L \<Longrightarrow> heap (snd (do_string_L e c L s w)) L' = heap w L'"
  by (simp add: do_string_L_def heap_run_on_other)

lemma trace_do_file_L: "trace (snd (do_file_L e c L f w)) = trace w @ [DoFile L f]"
  by (simp add: do_file_L_def)

lemma next_ref_do_file_L: "next_ref (snd (do_file_L e c L f w)) = next_ref w"
  by (simp add: do_file_L_def)

lemma heap_do_file_L_other:
  "L' \<noteq> L \<Longrightarrow> heap (snd (do_file_L e c L f w)) L' = heap w L'"
  by (simp add: do_file_L_def heap_run_on_other)

lemma trace_run_script:
  "trace (snd (run_script e c L s w)) = trace w @ [script_event e L s]"
  by (simp add: run_script_def script_event_def trace_do_file_L trace_do_string_L)

lemma next_ref_run_script: "next_ref (snd (run_script e c L s w)) = next_ref w"
  by (simp add: run_script_def next_ref_do_file_L next_ref_do_string_L)

lemma heap_run_script_other:
  "L' \<noteq> L \<Longrightarrow> heap (snd (run_script e c L s w)) L' = heap w L'"
  by (simp add: run_script_def heap_do_file_L_other heap_do_string_L_other)

lemma do_strings_Returned:
  "do_strings e c L ss w = (Returned (), w') \<Longrightarrow> trace w' = trace w @ map (DoString L) ss"
proof (induction ss arbitrary: w)
  case Nil
  then show ?case by simp
next
  case (Cons s ss)
  from Cons.prems obtain w1 where
    1: "do_string_L e c L s w = (Returned (), w1)" and 2: "do_strings e c L ss w1 = (Returned (), w')"
    by (auto simp: and_then_eq_Returned)
  have "trace w1 = trace w @ [DoString L s]"
    using trace_do_string_L [of e c L s w] 1 by simp
  with Cons.IH [OF 2] show ?case by simp
qed

lemma do_strings_prefix:
  "\<exists>k. trace (snd (do_strings e c L ss w)) = trace w @ map (DoString L) (take k ss)"
proof (induction ss arbitrary: w)
  case Nil
  then show ?case by simp
next
  case (Cons s ss)
  obtain r w1 where 1: "do_string_L e c L s w = (r, w1)" by (cases "do_string_L e c L s w")
  have t1: "trace w1 = trace w @ [DoString L s]"
    using trace_do_string_L [of e c L s w] 1 by simp
  show ?case
  proof (cases r)
    case (Returned u)
    from Cons.IH [of w1] obtain k where
      "trace (snd (do_strings e c L ss w1)) = trace w1 @ map (DoString L) (take k ss)" ..
    with 1 Returned t1 have
      "trace (snd (do_strings e c L (s # ss) w)) = trace w @ map (DoString L) (take (Suc k) (s # ss))"
      by simp
    then show ?thesis ..
  next
    case (Threw x)
    with 1 t1 have
      "trace (snd (do_strings e c L (s # ss) w)) = trace w @ map (DoString L) (take (Suc 0) (s # ss))"
      by simp
    then show ?thesis ..
  qed
qed

lemma next_ref_do_strings: "next_ref (snd (do_strings e c L ss w)) = next_ref w"
proof (induction ss arbitrary: w)
  case Nil
  then show ?case by simp
next
  case (Cons s ss)
  obtain r w1 where 1: "do_string_L e c L s w = (r, w1)" by (cases "do_string_L e c L s w")
  then have "next_ref w1 = next_ref w" using next_ref_do_string_L [of e c L s w] by simp
  with 1 Cons.IH [of w1] show ?case by (cases r) simp_all
qed

lemma heap_do_strings_other:
  "L' \<noteq> L \<Longrightarrow> heap (snd (do_strings e c L ss w)) L' = heap w L'"
proof (induction ss arbitrary: w)
  case Nil
  then show ?case by simp
next
  case (Cons s ss)
  obtain r w1 where 1: "do_string_L e c L s w = (r, w1)" by (cases "do_string_L e c L s w")
  then have "heap w1 L' = heap w L'" using heap_do_string_L_other [OF Cons.prems, of e c s w] by simp
  with 1 Cons.IH [OF Cons.prems, of w1] show ?case by (cases r) simp_all
qed


section \<open>Replaying the bindings\<close>

lemma set_globals_Nil [simp]: "set_globals L mk [] w = w"
  by (simp add: set_globals_def)

lemma set_globals_Cons [simp]:
  "set_globals L mk (kv # m) w =
     set_globals L mk m (on_state L (\<lambda>s. lua_setglobal (fst kv) (lua_push (mk (snd kv)) s)) w)"
  by (simp add: set_globals_def)

lemma trace_set_globals [simp]: "trace (set_globals L mk m w) = trace w"
  by (induction m arbitrary: w) simp_all

lemma next_ref_set_globals [simp]: "next_ref (set_globals L mk m w) = next_ref w"
  by (induction m arbitrary: w) simp_all

lemma heap_set_globals_other:
  "L' \<noteq> L \<Longrightarrow> heap (set_globals L mk m w) L' = heap w L'"
  by (induction m arbitrary: w) simp_all

lemma globals_setglobal_push [simp]:
  "globals (lua_setglobal k (lua_push v s)) = (globals s)(k := v)"
  by (simp add: lua_setglobal_def lua_push_def)

lemma stack_setglobal_push [simp]: "stack (lua_setglobal k (lua_push v s)) = stack s"
  by (simp add: lua_setglobal_def lua_push_def)

lemma is_open_setglobal_push [simp]: "is_open (lua_setglobal k (lua_push v s)) = is_open s"
  by (simp add: lua_setglobal_def lua_push_def)



lemma stack_set_globals [simp]:
  "stack (heap (set_globals L mk m w) L) = stack (heap w L)"
  by (induction m arbitrary: w) simp_all

lemma is_open_set_globals [simp]:
  "is_open (heap (set_globals L mk m w) L) = is_open (heap w L)"
  by (induction m arbitrary: w) simp_all

lemma map_find_key: "map_find m name = Some v \<Longrightarrow> name \<in> fst ` set m"
  by (auto simp: map_find_def dest: map_of_SomeD intro: rev_image_eqI)

lemma trace_replay_bindings [simp]: "trace (replay_bindings c L w) = trace w"
  by (simp add: replay_bindings_def)

lemma next_ref_replay_bindings [simp]: "next_ref (replay_bindings c L w) = next_ref w"
  by (simp add: replay_bindings_def)

lemma heap_replay_bindings_other:
  "L' \<noteq> L \<Longrightarrow> heap (replay_bindings c L w) L' = heap w L'"
  by (simp add: replay_bindings_def heap_set_globals_other)

lemma stack_replay_bindings [simp]:
  "stack (heap (replay_bindings c L w) L) = stack (heap w L)"
  by (simp add: replay_bindings_def)

lemma is_open_replay_bindings [simp]:
  "is_open (heap (replay_bindings c L w) L) = is_open (heap w L)"
  by (simp add: replay_bindings_def)



lemma distinct_six:
  assumes "distinct (a @ b @ c @ d @ e @ f)"
  shows "x \<in> set a \<longrightarrow> x \<notin> set b \<and> x \<notin> set c \<and> x \<notin> set d \<and> x \<notin> set e \<and> x \<notin> set f"
    "x \<in> set b \<longrightarrow> x \<notin> set c \<and> x \<notin> set d \<and> x \<notin> set e \<and> x \<notin> set f"
    "x \<in> set c \<longrightarrow> x \<notin> set d \<and> x \<notin> set e \<and> x \<notin> set f"
    "x \<in> set d \<longrightarrow> x \<notin> set e \<and> x \<notin> set f"
    "x \<in> set e \<longrightarrow> x \<notin> set f"
  using assms by auto

lemma recorded_None_iff:
  "recorded Usertype c name = None \<longleftrightarrow> name \<notin> set (map fst (usertypes c))"
  "recorded String c name = None \<longleftrightarrow> name \<notin> set (map fst (strings c))"
  "recorded Boolean c name = None \<longleftrightarrow> name \<notin> set (map fst (booleans c))"
  "recorded Number c name = None \<longleftrightarrow> name \<notin> set (map fst (numbers c))"
  "recorded Integer c name = None \<longleftrightarrow> name \<notin> set (map fst (integers c))"
  "recorded Cfunction c name = None \<longleftrightarrow> name \<notin> set (map fst (cfunctions c))"
  by (simp_all add: map_find_def map_of_eq_None_iff)

lemma other_kind_not_recorded:
  assumes ok: "bindings_ok c" and rec: "recorded k c name \<noteq> None" and ne: "k' \<noteq> k"
  shows "recorded k' c name = None"
proof -
  from ok have "distinct (all_names c)" by (simp add: bindings_ok_def)
  note six = distinct_six [OF this [unfolded all_names_def], of name]
  from rec ne six show ?thesis
    unfolding recorded_None_iff
    by (cases k; cases k') (simp_all only: recorded_None_iff kind.distinct not_not, blast+)
qed



section \<open>The phases of init\_state\<close>

lemma open_state_eq:
  "open_state c w = (next_ref w, snd (open_state c w))"
  by (simp add: open_state_def newstate_def Let_def)

lemma trace_open_state [simp]: "trace (snd (open_state c w)) = trace w"
  by (simp add: open_state_def newstate_def Let_def)

lemma next_ref_open_state [simp]: "next_ref (snd (open_state c w)) = Suc (next_ref w)"
  by (simp add: open_state_def newstate_def Let_def)

lemma heap_open_state_other:
  "L' \<noteq> next_ref w \<Longrightarrow> heap (snd (open_state c w)) L' = heap w L'"
  by (simp add: open_state_def newstate_def Let_def)

lemma is_open_open_state [simp]: "is_open (heap (snd (open_state c w)) (next_ref w))"
  by (simp add: open_state_def newstate_def Let_def new_lua_State_def luaL_openlibs_def
      lua_remove_def lua_getfield_def lua_getglobal_def lua_push_def index2pos_def lua_gettop_def)

lemma stack_open_state:
  "stack (heap (snd (open_state c w)) (next_ref w)) =
     (if enable_tracebacks c then [LLibFunction ''debug'' ''traceback''] else [])"
  by (simp add: open_state_def newstate_def Let_def new_lua_State_def luaL_openlibs_def
      lua_remove_def lua_getfield_def lua_getglobal_def lua_push_def index2pos_def lua_gettop_def
      standard_libs_def)

lemma replay_Returned:
  assumes "replay e c L w = (Returned (), w')"
  shows "trace w' = trace w @ replay_events c L"
    and "\<exists>w3. w' = replay_bindings c L w3"
proof -
  from assms obtain w1 w2 w3 where
    1: "do_strings e c L (map package_path_code (package_dirs c)) w = (Returned (), w1)" and
    2: "do_strings e c L (map package_cpath_code (cpackage_dirs c)) w1 = (Returned (), w2)" and
    3: "do_strings e c L (map require_code (packages c)) w2 = (Returned (), w3)" and
    4: "w' = replay_bindings c L w3"
    unfolding replay_def and_then_eq_Returned by auto
  from 4 show "\<exists>w3. w' = replay_bindings c L w3" ..
  from do_strings_Returned [OF 1] do_strings_Returned [OF 2] do_strings_Returned [OF 3] 4
  show "trace w' = trace w @ replay_events c L"
    by (simp add: replay_events_def comp_def)
qed

lemma next_ref_and_then:
  assumes "next_ref (snd m) = n" and "\<And>w. next_ref w = n \<Longrightarrow> next_ref (snd (f w)) = n"
  shows "next_ref (snd (and_then m f)) = n"
  using assms by (cases m; cases "fst m") (auto simp: and_then_def split: result.splits)

lemma heap_and_then:
  assumes "heap (snd m) L' = s" and "\<And>w. heap w L' = s \<Longrightarrow> heap (snd (f w)) L' = s"
  shows "heap (snd (and_then m f)) L' = s"
  using assms by (cases m; cases "fst m") (auto simp: and_then_def split: result.splits)

lemma next_ref_replay: "next_ref (snd (replay e c L w)) = next_ref w"
  unfolding replay_def
  by (intro next_ref_and_then) (simp_all add: next_ref_do_strings)

lemma heap_replay_other:
  assumes "L' \<noteq> L"
  shows "heap (snd (replay e c L w)) L' = heap w L'"
  unfolding replay_def
  by (intro heap_and_then) (simp_all add: heap_do_strings_other heap_replay_bindings_other assms)

lemma init_watchers_Returned:
  "init_watchers e L ws w = (Returned (), w') \<Longrightarrow>
     trace w' = trace w @ map (\<lambda>i. Init i L) ws"
proof (induction ws arbitrary: w)
  case Nil
  then show ?case by simp
next
  case (Cons i ws)
  obtain x w1 where 1: "run_on (Init i L) L (lua_init e i) w = (x, w1)"
    by (cases "run_on (Init i L) L (lua_init e i) w")
  then have t: "trace w1 = trace w @ [Init i L]"
    using trace_run_on [of "Init i L" L "lua_init e i" w] by simp
  from Cons.prems 1 have "x = None" "init_watchers e L ws w1 = (Returned (), w')"
    by (cases x; simp)+
  from Cons.IH [OF this(2)] t show ?case by simp
qed

lemma init_watchers_Threw:
  "init_watchers e L ws w = (Threw x, w') \<Longrightarrow>
     (\<exists>k. trace w' = trace w @ map (\<lambda>i. Init i L) (take (Suc k) ws) @ [Close L])
     \<and> \<not> is_open (heap w' L)"
proof (induction ws arbitrary: w)
  case Nil
  then show ?case by simp
next
  case (Cons i ws)
  obtain y w1 where 1: "run_on (Init i L) L (lua_init e i) w = (y, w1)"
    by (cases "run_on (Init i L) L (lua_init e i) w")
  then have t: "trace w1 = trace w @ [Init i L]"
    using trace_run_on [of "Init i L" L "lua_init e i" w] by simp
  show ?case
  proof (cases y)
    case None
    with Cons.prems 1 have "init_watchers e L ws w1 = (Threw x, w')" by simp
    from Cons.IH [OF this] obtain k where
      "trace w' = trace w1 @ map (\<lambda>i. Init i L) (take (Suc k) ws) @ [Close L]"
      and c: "\<not> is_open (heap w' L)" by blast
    with t have "trace w' = trace w @ map (\<lambda>i. Init i L) (take (Suc (Suc k)) (i # ws)) @ [Close L]"
      by simp
    with c show ?thesis by blast
  next
    case (Some z)
    with Cons.prems 1 have w': "w' = close_state L w1" by simp
    with t have "trace w' = trace w @ map (\<lambda>i. Init i L) (take (Suc 0) (i # ws)) @ [Close L]"
      by simp
    moreover from w' have "\<not> is_open (heap w' L)" by (simp add: lua_close_def)
    ultimately show ?thesis by blast
  qed
qed

lemma next_ref_init_watchers: "next_ref (snd (init_watchers e L ws w)) = next_ref w"
proof (induction ws arbitrary: w)
  case Nil
  then show ?case by simp
next
  case (Cons i ws)
  obtain y w1 where 1: "run_on (Init i L) L (lua_init e i) w = (y, w1)"
    by (cases "run_on (Init i L) L (lua_init e i) w")
  then have "next_ref w1 = next_ref w"
    using next_ref_run_on [of "Init i L" L "lua_init e i" w] by simp
  with 1 Cons.IH [of w1] show ?case by (cases y) simp_all
qed

lemma heap_init_watchers_other:
  "L' \<noteq> L \<Longrightarrow> heap (snd (init_watchers e L ws w)) L' = heap w L'"
proof (induction ws arbitrary: w)
  case Nil
  then show ?case by simp
next
  case (Cons i ws)
  obtain y w1 where 1: "run_on (Init i L) L (lua_init e i) w = (y, w1)"
    by (cases "run_on (Init i L) L (lua_init e i) w")
  then have "heap w1 L' = heap w L'"
    using heap_run_on_other [OF Cons.prems, of "Init i L" "lua_init e i" w] by simp
  with 1 Cons.IH [OF Cons.prems, of w1] Cons.prems show ?case by (cases y) simp_all
qed

lemma init_state_Returned:
  assumes "init_state e c w = (Returned L, w1)"
  shows "L = next_ref w"
    and "\<exists>wr w2. replay e c L (snd (open_state c w)) = (Returned (), wr)
           \<and> init_watchers e L (watchers c) wr = (Returned (), w2)
           \<and> (case start_script c of None \<Rightarrow> (Returned (), w2)
               | Some script \<Rightarrow> run_script e c L script w2) = (Returned (), w1)"
proof -
  obtain w0 where w0: "open_state c w = (next_ref w, w0)"
    using open_state_eq by blast
  from assms obtain wr w2 w3 where
    1: "replay e c (next_ref w) w0 = (Returned (), wr)" and
    2: "init_watchers e (next_ref w) (watchers c) wr = (Returned (), w2)" and
    3: "(case start_script c of None \<Rightarrow> (Returned (), w2)
         | Some script \<Rightarrow> run_script e c (next_ref w) script w2) = (Returned (), w3)" and
    4: "(Returned (next_ref w), w3) = (Returned L, w1)"
    unfolding init_state_def w0 Let_def prod.case and_then_eq_Returned by blast
  from 4 show L: "L = next_ref w" by simp
  from 1 2 3 4 w0 show "\<exists>wr w2. replay e c L (snd (open_state c w)) = (Returned (), wr)
           \<and> init_watchers e L (watchers c) wr = (Returned (), w2)
           \<and> (case start_script c of None \<Rightarrow> (Returned (), w2)
               | Some script \<Rightarrow> run_script e c L script w2) = (Returned (), w1)"
    by auto
qed

lemma trace_start_script:
  assumes "(case start_script c of None \<Rightarrow> (Returned (), w2)
            | Some script \<Rightarrow> run_script e c L script w2) = (r, w1)"
  shows "trace w1 = trace w2 @ script_events e c L"
proof (cases "start_script c")
  case None
  with assms show ?thesis by (simp add: script_events_def)
next
  case (Some s)
  with assms have "w1 = snd (run_script e c L s w2)" by simp
  with Some show ?thesis by (simp add: script_events_def trace_run_script)
qed

lemma trace_init_state:
  assumes "init_state e c w = (Returned L, w1)"
  shows "trace w1 = trace w @ init_events e c L"
proof -
  from init_state_Returned(2) [OF assms] obtain wr w2 where
    1: "replay e c L (snd (open_state c w)) = (Returned (), wr)" and
    2: "init_watchers e L (watchers c) wr = (Returned (), w2)" and
    3: "(case start_script c of None \<Rightarrow> (Returned (), w2)
         | Some script \<Rightarrow> run_script e c L script w2) = (Returned (), w1)"
    by blast
  from replay_Returned(1) [OF 1] init_watchers_Returned [OF 2] trace_start_script [OF 3]
  show ?thesis by (simp add: init_events_def)
qed

section \<open>Setting global variables\<close>

lemma map_find_map_assign:
  "map_find (map_assign k v m) k' = (if k' = k then Some v else map_find m k')"
  by (induction m) (auto simp: map_find_def)

lemma globals_push_setglobal:
  "globals (heap (push_setglobal v name c w) (ctx_L c)) name' =
     (if name' = name then v else globals (heap w (ctx_L c)) name')"
  by (simp add: push_setglobal_def)

lemma assert_unique_name_throws:
  assumes "k' \<noteq> k" "recorded k' c name \<noteq> None"
  shows "\<exists>x. assert_unique_name c name (kind_name k) = Threw x"
  using assms by (cases k; cases k') (simp_all add: assert_unique_name_def has_key_def)

lemma assert_unique_name_returns:
  assumes "\<forall>k'. k' \<noteq> k \<longrightarrow> recorded k' c name = None"
  shows "assert_unique_name c name (kind_name k) = Returned ()"
proof -
  have "k = Usertype \<or> recorded Usertype c name = None"
       "k = String \<or> recorded String c name = None"
       "k = Boolean \<or> recorded Boolean c name = None"
       "k = Number \<or> recorded Number c name = None"
       "k = Integer \<or> recorded Integer c name = None"
       "k = Cfunction \<or> recorded Cfunction c name = None"
    using assms by auto
  then show ?thesis
    by (cases k) (simp_all add: assert_unique_name_def has_key_def)
qed

lemma perform_threw:
  assumes "assert_unique_name c name (kind_name (kind_of b)) = Threw x"
  shows "perform name b c w = (Threw x, c, w)"
  using assms
  by (cases b)
     (simp_all add: Let_def set_usertype_def set_string_def set_boolean_def set_number_def
        set_integer_def set_cfunction_def)

lemma perform_returned:
  assumes "assert_unique_name c name (kind_name (kind_of b)) = Returned ()"
  shows "\<exists>c'. perform name b c w = (Returned (), c', push_setglobal (pushed_value b) name c w)
           \<and> ctx_L c' = ctx_L c
           \<and> recorded (kind_of b) c' name = Some (pushed_value b)"
proof (cases b)
  case (Set_usertype d t ns)
  with assms show ?thesis
    by (cases ns) (simp_all add: Let_def set_usertype_def map_find_map_assign usertype_value_def)
qed (use assms in \<open>simp_all add: set_string_def set_boolean_def set_number_def
        set_integer_def set_cfunction_def map_find_map_assign\<close>)

lemma assert_unique_name_cases:
  "assert_unique_name c name ty = Returned () \<or> (\<exists>x. assert_unique_name c name ty = Threw x)"
  by (cases "assert_unique_name c name ty") auto


section \<open>The stack\<close>

lemma pop_keeps_bottom:
  assumes "0 \<le> n" "n < lua_gettop s"
  shows "take 1 (stack (lua_pop n s)) = take 1 (stack s)" "stack (lua_pop n s) \<noteq> []"
proof -
  from assms have l: "nat (lua_gettop s + (- n - 1) + 1) = length (stack s) - nat n"
    "0 < length (stack s) - nat n"
    by (auto simp: lua_gettop_def)
  from assms have "stack (lua_pop n s) = take (length (stack s) - nat n) (stack s)"
    using l by (simp add: lua_pop_def lua_settop_def)
  with l(2) show "take 1 (stack (lua_pop n s)) = take 1 (stack s)" "stack (lua_pop n s) \<noteq> []"
    by (auto simp: min_def)
qed

lemma remove_keeps_bottom:
  assumes "idx \<noteq> 1" "idx \<noteq> - lua_gettop s" "stack s \<noteq> []"
  shows "take 1 (stack (lua_remove idx s)) = take 1 (stack s)" "stack (lua_remove idx s) \<noteq> []"
proof -
  show "take 1 (stack (lua_remove idx s)) = take 1 (stack s)"
  proof (cases "index2pos s idx")
    case None
    then show ?thesis by (simp add: lua_remove_def)
  next
    case (Some p)
    with assms have "0 < p"
      by (auto simp: index2pos_def lua_gettop_def split: if_splits)
    with Some show ?thesis
      by (simp add: lua_remove_def min_def)
  qed
  show "stack (lua_remove idx s) \<noteq> []"
  proof (cases "index2pos s idx")
    case None
    with assms show ?thesis by (simp add: lua_remove_def)
  next
    case (Some p)
    with assms have "0 < p"
      by (auto simp: index2pos_def lua_gettop_def split: if_splits)
    with Some assms show ?thesis
      by (simp add: lua_remove_def)
  qed
qed



section \<open>The invariant of the maps is kept\<close>

lemma keys_map_assign: "set (map fst (map_assign k v m)) = insert k (set (map fst m))"
proof (induction m)
  case Nil
  then show ?case by simp
next
  case (Cons kv m)
  obtain k' v' where kv: "kv = (k', v')" by (cases kv)
  show ?case
    using Cons.IH unfolding kv
    by (cases "k = k'"; cases "k < k'") (simp_all add: insert_commute)
qed

lemma is_std_map_map_assign: "is_std_map m \<Longrightarrow> is_std_map (map_assign k v m)"
proof (induction m)
  case Nil
  then show ?case by (simp add: is_std_map_def)
next
  case (Cons kv m)
  obtain k' v' where kv: "kv = (k', v')" by (cases kv)
  from Cons.prems kv have s: "\<forall>x \<in> set (map fst m). k' < x" "is_std_map m"
    by (simp_all add: is_std_map_def)
  show ?case
  proof (cases "k = k'")
    case True
    with Cons.prems kv show ?thesis by (simp add: is_std_map_def)
  next
    case False
    show ?thesis
    proof (cases "k < k'")
      case True
      with s(1) have "\<forall>x \<in> set (map fst m). k < x" by auto
      with True Cons.prems kv show ?thesis by (simp add: is_std_map_def)
    next
      case False
      with \<open>k \<noteq> k'\<close> have "k' < k" by auto
      with s(1) have "\<forall>x \<in> set (map fst (map_assign k v m)). k' < x"
        unfolding keys_map_assign by auto
      moreover have "is_std_map (map_assign k v m)"
        by (rule Cons.IH [OF s(2)])
      ultimately have "\<forall>x \<in> set (map fst (map_assign k v m)). k' < x"
        "is_std_map (map_assign k v m)"
        by blast+
      with False \<open>k \<noteq> k'\<close> kv show ?thesis
        by (simp add: is_std_map_def)
    qed
  qed
qed

lemma is_std_map_distinct: "is_std_map m \<Longrightarrow> distinct (map fst m)"
  by (simp add: is_std_map_def strict_sorted_iff)

lemma is_std_map_map_erase: "is_std_map m \<Longrightarrow> is_std_map (map_erase k m)"
  by (induction m) (auto simp: is_std_map_def map_erase_def)

lemma keys_map_erase: "set (map fst (map_erase k m)) = set (map fst m) - {k}"
  by (induction m) (auto simp: map_erase_def)


lemma distinct_sixI:
  assumes "distinct a" "distinct b" "distinct c" "distinct d" "distinct e" "distinct f"
    and "\<And>x. x \<in> set a \<Longrightarrow> x \<notin> set b \<and> x \<notin> set c \<and> x \<notin> set d \<and> x \<notin> set e \<and> x \<notin> set f"
    and "\<And>x. x \<in> set b \<Longrightarrow> x \<notin> set c \<and> x \<notin> set d \<and> x \<notin> set e \<and> x \<notin> set f"
    and "\<And>x. x \<in> set c \<Longrightarrow> x \<notin> set d \<and> x \<notin> set e \<and> x \<notin> set f"
    and "\<And>x. x \<in> set d \<Longrightarrow> x \<notin> set e \<and> x \<notin> set f"
    and "\<And>x. x \<in> set e \<Longrightarrow> x \<notin> set f"
  shows "distinct (a @ b @ c @ d @ e @ f)"
  using assms by (auto simp: disjoint_iff)

lemma bindings_okI:
  assumes m: "is_std_map (usertypes c)" "is_std_map (strings c)" "is_std_map (booleans c)"
      "is_std_map (numbers c)" "is_std_map (integers c)" "is_std_map (cfunctions c)"
    and u: "\<And>name k k'. recorded k c name \<noteq> None \<Longrightarrow> recorded k' c name \<noteq> None \<Longrightarrow> k = k'"
  shows "bindings_ok c"
proof -
  have n: "recorded k c x = None \<or> recorded k' c x = None" if "k \<noteq> k'" for k k' x
    using u that by blast
  have "distinct (all_names c)"
    unfolding all_names_def
  proof (rule distinct_sixI)
    show "distinct (map fst (usertypes c))" "distinct (map fst (strings c))"
      "distinct (map fst (booleans c))" "distinct (map fst (numbers c))"
      "distinct (map fst (integers c))" "distinct (map fst (cfunctions c))"
      using m by (simp_all add: is_std_map_distinct)
  next
    fix x assume "x \<in> set (map fst (usertypes c))"
    then show "x \<notin> set (map fst (strings c)) \<and> x \<notin> set (map fst (booleans c))
        \<and> x \<notin> set (map fst (numbers c)) \<and> x \<notin> set (map fst (integers c))
        \<and> x \<notin> set (map fst (cfunctions c))"
      using n [of Usertype String x] n [of Usertype Boolean x] n [of Usertype Number x]
        n [of Usertype Integer x] n [of Usertype Cfunction x]
      unfolding recorded_None_iff by simp
  next
    fix x assume "x \<in> set (map fst (strings c))"
    then show "x \<notin> set (map fst (booleans c))
        \<and> x \<notin> set (map fst (numbers c)) \<and> x \<notin> set (map fst (integers c))
        \<and> x \<notin> set (map fst (cfunctions c))"
      using n [of String Boolean x] n [of String Number x]
        n [of String Integer x] n [of String Cfunction x]
      unfolding recorded_None_iff by simp
  next
    fix x assume "x \<in> set (map fst (booleans c))"
    then show "x \<notin> set (map fst (numbers c)) \<and> x \<notin> set (map fst (integers c))
        \<and> x \<notin> set (map fst (cfunctions c))"
      using n [of Boolean Number x] n [of Boolean Integer x] n [of Boolean Cfunction x]
      unfolding recorded_None_iff by simp
  next
    fix x assume "x \<in> set (map fst (numbers c))"
    then show "x \<notin> set (map fst (integers c)) \<and> x \<notin> set (map fst (cfunctions c))"
      using n [of Number Integer x] n [of Number Cfunction x]
      unfolding recorded_None_iff by simp
  next
    fix x assume "x \<in> set (map fst (integers c))"
    then show "x \<notin> set (map fst (cfunctions c))"
      using n [of Integer Cfunction x]
      unfolding recorded_None_iff by simp
  qed
  with m show ?thesis by (simp add: bindings_ok_def)
qed

lemma bindings_ok_std_map:
  assumes "bindings_ok c"
  shows "is_std_map (usertypes c)" "is_std_map (strings c)" "is_std_map (booleans c)"
      "is_std_map (numbers c)" "is_std_map (integers c)" "is_std_map (cfunctions c)"
  using assms by (simp_all add: bindings_ok_def)

lemma bindings_ok_unique:
  assumes "bindings_ok c" "recorded k c name \<noteq> None" "recorded k' c name \<noteq> None"
  shows "k = k'"
  using other_kind_not_recorded [OF assms(1) assms(2), of k'] assms(3) by blast

lemma perform_Returned_assert:
  assumes "perform name b c w = (Returned (), c', w')"
  shows "assert_unique_name c name (kind_name (kind_of b)) = Returned ()"
proof (rule ccontr)
  assume "assert_unique_name c name (kind_name (kind_of b)) \<noteq> Returned ()"
  then obtain x where "assert_unique_name c name (kind_name (kind_of b)) = Threw x"
    using assert_unique_name_cases by blast
  from perform_threw [OF this, of w] assms show False by simp
qed

lemma perform_Threw_same:
  assumes "perform name b c w = (Threw x, c', w')"
  shows "c' = c \<and> w' = w"
proof -
  from assert_unique_name_cases [of c name "kind_name (kind_of b)"] show ?thesis
  proof
    assume "assert_unique_name c name (kind_name (kind_of b)) = Returned ()"
    from perform_returned [OF this, of w] assms show ?thesis by auto
  next
    assume "\<exists>x. assert_unique_name c name (kind_name (kind_of b)) = Threw x"
    then obtain y where "assert_unique_name c name (kind_name (kind_of b)) = Threw y" ..
    from perform_threw [OF this, of w] assms show ?thesis by simp
  qed
qed

lemma perform_Returned_recorded:
  assumes "perform name b c w = (Returned (), c', w')"
  shows "recorded k c' n
           = (if k = kind_of b \<and> n = name then Some (pushed_value b) else recorded k c n)"
proof -
  note a = perform_Returned_assert [OF assms]
  show ?thesis
  proof (cases b)
    case (Set_usertype d t ns)
    with assms a show ?thesis
      by (cases ns; cases k)
         (auto simp: set_usertype_def Let_def map_find_map_assign usertype_value_def)
  next
    case (Set_string v)
    with assms a show ?thesis
      by (cases k) (auto simp: set_string_def map_find_map_assign)
  next
    case (Set_boolean v)
    with assms a show ?thesis
      by (cases k) (auto simp: set_boolean_def map_find_map_assign)
  next
    case (Set_number v)
    with assms a show ?thesis
      by (cases k) (auto simp: set_number_def map_find_map_assign)
  next
    case (Set_integer v)
    with assms a show ?thesis
      by (cases k) (auto simp: set_integer_def map_find_map_assign)
  next
    case (Set_cfunction v)
    with assms a show ?thesis
      by (cases k) (auto simp: set_cfunction_def map_find_map_assign)
  qed
qed

lemma perform_Returned_std_map:
  assumes "perform name b c w = (Returned (), c', w')" "bindings_ok c"
  shows "is_std_map (usertypes c')" "is_std_map (strings c')" "is_std_map (booleans c')"
      "is_std_map (numbers c')" "is_std_map (integers c')" "is_std_map (cfunctions c')"
proof -
  note a = perform_Returned_assert [OF assms(1)]
  note m = bindings_ok_std_map [OF assms(2)]
  have "is_std_map (usertypes c') \<and> is_std_map (strings c') \<and> is_std_map (booleans c')
      \<and> is_std_map (numbers c') \<and> is_std_map (integers c') \<and> is_std_map (cfunctions c')"
  proof (cases b)
    case (Set_usertype d t ns)
    with assms(1) a m show ?thesis
      by (auto simp: set_usertype_def Let_def is_std_map_map_assign)
  next
    case (Set_string v)
    with assms(1) a m show ?thesis
      by (auto simp: set_string_def is_std_map_map_assign)
  next
    case (Set_boolean v)
    with assms(1) a m show ?thesis
      by (auto simp: set_boolean_def is_std_map_map_assign)
  next
    case (Set_number v)
    with assms(1) a m show ?thesis
      by (auto simp: set_number_def is_std_map_map_assign)
  next
    case (Set_integer v)
    with assms(1) a m show ?thesis
      by (auto simp: set_integer_def is_std_map_map_assign)
  next
    case (Set_cfunction v)
    with assms(1) a m show ?thesis
      by (auto simp: set_cfunction_def is_std_map_map_assign)
  qed
  then show "is_std_map (usertypes c')" "is_std_map (strings c')" "is_std_map (booleans c')"
      "is_std_map (numbers c')" "is_std_map (integers c')" "is_std_map (cfunctions c')"
    by simp_all
qed

lemma bindings_ok_perform:
  assumes ok: "bindings_ok c" and p: "perform name b c w = (r, c', w')"
  shows "bindings_ok c'"
proof (cases r)
  case (Threw x)
  with p perform_Threw_same have "c' = c" by blast
  with ok show ?thesis by simp
next
  case (Returned u)
  with p have p': "perform name b c w = (Returned (), c', w')" by simp
  note a = perform_Returned_assert [OF p']
  have others: "recorded k c name = None" if "k \<noteq> kind_of b" for k
  proof (rule ccontr)
    assume "recorded k c name \<noteq> None"
    from assert_unique_name_throws [OF that this] a show False by auto
  qed
  note rec = perform_Returned_recorded [OF p']
  show ?thesis
  proof (rule bindings_okI)
    show "is_std_map (usertypes c')" "is_std_map (strings c')" "is_std_map (booleans c')"
      "is_std_map (numbers c')" "is_std_map (integers c')" "is_std_map (cfunctions c')"
      by (rule perform_Returned_std_map [OF p' ok])+
  next
    fix n k k'
    assume 1: "recorded k c' n \<noteq> None" and 2: "recorded k' c' n \<noteq> None"
    show "k = k'"
    proof (cases "n = name")
      case True
      from 1 True others [of k] have "k = kind_of b"
        unfolding rec by (auto split: if_splits)
      moreover from 2 True others [of k'] have "k' = kind_of b"
        unfolding rec by (auto split: if_splits)
      ultimately show ?thesis by simp
    next
      case False
      with 1 2 have "recorded k c n \<noteq> None" "recorded k' c n \<noteq> None"
        unfolding rec by simp_all
      then show ?thesis by (rule bindings_ok_unique [OF ok])
    qed
  qed
qed

lemma LuaContext_new_maps:
  assumes "LuaContext_new e watch_dirs tb w = (Returned c, w1)"
  shows "usertypes c = []" "strings c = []" "booleans c = []" "numbers c = []"
    "integers c = []" "cfunctions c = []" "packages c = []"
  using assms by (auto simp: LuaContext_new_def Let_def split: prod.splits result.splits)

lemma bindings_ok_new:
  assumes "LuaContext_new e watch_dirs tb w = (Returned c, w1)"
  shows "bindings_ok c"
  using LuaContext_new_maps [OF assms]
  by (simp add: bindings_ok_def is_std_map_def all_names_def)

lemma bindings_ok_wrap: "bindings_ok (LuaContext_wrap tb L)"
  by (simp add: LuaContext_wrap_def bindings_ok_def is_std_map_def all_names_def)

lemma map_find_map_erase:
  "map_find (map_erase name m) n = (if n = name then None else map_find m n)"
  by (induction m) (auto simp: map_find_def map_erase_def)

lemma recorded_remove_global:
  "recorded k (fst (remove_global name c w)) n = (if n = name then None else recorded k c n)"
  by (cases k) (simp_all add: remove_global_def map_find_map_erase)

lemma bindings_ok_remove_global:
  assumes "bindings_ok c"
  shows "bindings_ok (fst (remove_global name c w))"
proof (rule bindings_okI)
  show "is_std_map (usertypes (fst (remove_global name c w)))"
    "is_std_map (strings (fst (remove_global name c w)))"
    "is_std_map (booleans (fst (remove_global name c w)))"
    "is_std_map (numbers (fst (remove_global name c w)))"
    "is_std_map (integers (fst (remove_global name c w)))"
    "is_std_map (cfunctions (fst (remove_global name c w)))"
    using bindings_ok_std_map [OF assms]
    by (simp_all add: remove_global_def is_std_map_map_erase)
next
  fix n k k'
  assume "recorded k (fst (remove_global name c w)) n \<noteq> None"
    "recorded k' (fst (remove_global name c w)) n \<noteq> None"
  then have "recorded k c n \<noteq> None" "recorded k' c n \<noteq> None"
    unfolding recorded_remove_global by (auto split: if_splits)
  then show "k = k'" by (rule bindings_ok_unique [OF assms])
qed

lemma bindings_ok_ctx_L_update [simp]: "bindings_ok (c\<lparr>ctx_L := L\<rparr>) = bindings_ok c"
  by (simp add: bindings_ok_def all_names_def)

section \<open>A restart that fails\<close>

lemma and_then_trace:
  assumes "\<exists>evs. trace (snd m) = trace w @ evs \<and> list_all P evs"
    and "\<And>w1. \<exists>evs. trace (snd (f w1)) = trace w1 @ evs \<and> list_all P evs"
  shows "\<exists>evs. trace (snd (and_then m f)) = trace w @ evs \<and> list_all P evs"
proof (cases m)
  case (Pair r w1)
  show ?thesis
  proof (cases r)
    case (Returned u)
    from assms(1) Pair obtain evs1 where 1: "trace w1 = trace w @ evs1" "list_all P evs1"
      by auto
    from assms(2) [of w1] obtain evs2 where
      2: "trace (snd (f w1)) = trace w1 @ evs2" "list_all P evs2" by blast
    from 1 2 have "trace (snd (f w1)) = trace w @ (evs1 @ evs2) \<and> list_all P (evs1 @ evs2)"
      by simp
    with Pair Returned show ?thesis by auto
  next
    case (Threw x)
    with Pair assms(1) show ?thesis by simp
  qed
qed

lemma do_strings_trace:
  "\<exists>evs. trace (snd (do_strings e c L ss w)) = trace w @ evs
     \<and> list_all (\<lambda>ev. \<exists>s. ev = DoString L s) evs"
proof -
  from do_strings_prefix [of e c L ss w] obtain k where
    "trace (snd (do_strings e c L ss w)) = trace w @ map (DoString L) (take k ss)" ..
  moreover have "list_all (\<lambda>ev. \<exists>s. ev = DoString L s) (map (DoString L) (take k ss))"
    by (simp add: list_all_iff)
  ultimately show ?thesis by blast
qed

lemma init_watchers_trace:
  "\<exists>evs. trace (snd (init_watchers e L ws w)) = trace w @ evs
     \<and> list_all (\<lambda>ev. (\<exists>i. ev = Init i L) \<or> ev = Close L) evs"
proof (cases "init_watchers e L ws w")
  case (Pair r w')
  show ?thesis
  proof (cases r)
    case (Returned u)
    with Pair have "trace w' = trace w @ map (\<lambda>i. Init i L) ws"
      using init_watchers_Returned by simp
    moreover have "list_all (\<lambda>ev. (\<exists>i. ev = Init i L) \<or> ev = Close L) (map (\<lambda>i. Init i L) ws)"
      by (simp add: list_all_iff)
    ultimately show ?thesis using Pair by auto
  next
    case (Threw x)
    with Pair init_watchers_Threw [of e L ws w x w'] obtain k where
      "trace w' = trace w @ map (\<lambda>i. Init i L) (take (Suc k) ws) @ [Close L]" by blast
    moreover have "list_all (\<lambda>ev. (\<exists>i. ev = Init i L) \<or> ev = Close L)
                     (map (\<lambda>i. Init i L) (take (Suc k) ws) @ [Close L])"
      by (simp add: list_all_iff)
    ultimately show ?thesis using Pair by auto
  qed
qed

lemma list_all_mono: "list_all P xs \<Longrightarrow> (\<And>x. P x \<Longrightarrow> Q x) \<Longrightarrow> list_all Q xs"
  by (auto simp: list_all_iff)

lemma init_state_trace:
  "\<exists>evs. trace (snd (init_state e c w)) = trace w @ evs
     \<and> list_all (\<lambda>ev. (\<exists>s. ev = DoString (next_ref w) s) \<or> (\<exists>f. ev = DoFile (next_ref w) f)
                      \<or> (\<exists>i. ev = Init i (next_ref w)) \<or> ev = Close (next_ref w)) evs"
proof -
  let ?L = "next_ref w"
  let ?P = "\<lambda>ev. (\<exists>s. ev = DoString ?L s) \<or> (\<exists>f. ev = DoFile ?L f)
                      \<or> (\<exists>i. ev = Init i ?L) \<or> ev = Close ?L"
  obtain w0 where w0: "open_state c w = (?L, w0)" and t0: "trace w0 = trace w"
    using open_state_eq [of c w] trace_open_state [of c w] by auto
  have ds: "\<exists>evs. trace (snd (do_strings e c ?L ss w')) = trace w' @ evs \<and> list_all ?P evs"
    for ss w'
    using do_strings_trace [of e c ?L ss w'] by (blast intro: list_all_mono)
  have iw: "\<exists>evs. trace (snd (init_watchers e ?L ws w')) = trace w' @ evs \<and> list_all ?P evs"
    for ws w'
    using init_watchers_trace [of e ?L ws w'] by (blast intro: list_all_mono)
  have nil: "\<exists>evs. trace w' = trace w' @ evs \<and> list_all ?P evs" for w'
    by (rule exI [of _ "[]"]) simp
  have sc: "\<exists>evs. trace (snd (case start_script c of None \<Rightarrow> (Returned (), w')
                                | Some script \<Rightarrow> run_script e c ?L script w'))
                    = trace w' @ evs \<and> list_all ?P evs" for w'
  proof (cases "start_script c")
    case None
    then show ?thesis using nil [of w'] by simp
  next
    case (Some s)
    have "trace (snd (run_script e c ?L s w')) = trace w' @ [script_event e ?L s]
            \<and> list_all ?P [script_event e ?L s]"
      by (simp add: trace_run_script script_event_def)
    with Some show ?thesis by auto
  qed
  have rp: "\<exists>evs. trace (snd (replay e c ?L w')) = trace w' @ evs \<and> list_all ?P evs" for w'
    unfolding replay_def
    by (intro and_then_trace ds) (use nil in simp)
  have "\<exists>evs. trace (snd (init_state e c w)) = trace w0 @ evs \<and> list_all ?P evs"
    unfolding init_state_def w0 Let_def prod.case
    by (intro and_then_trace rp iw sc) (use nil in simp)
  with t0 show ?thesis by simp
qed

lemma init_state_watcher_throws:
  assumes "replay e c (next_ref w) (snd (open_state c w)) = (Returned (), wr)"
    and "init_watchers e (next_ref w) (watchers c) wr = (Threw x, w2)"
  shows "init_state e c w = (Threw x, w2)" "\<not> is_open (heap w2 (next_ref w))"
proof -
  obtain w0 where w0: "open_state c w = (next_ref w, w0)"
    using open_state_eq by blast
  with assms show "init_state e c w = (Threw x, w2)"
    by (simp add: init_state_def)
  from init_watchers_Threw [OF assms(2)] show "\<not> is_open (heap w2 (next_ref w))"
    by blast
qed

section \<open>What the calls into Lua amount to\<close>

lemma fst_do_string_state:
  "fst (do_string_state e c s s0) = Returned () \<longleftrightarrow> chunk_ok e c s s0"
  by (cases "luaL_loadstring e s s0"; cases "lua_pcall e (errfunc_of c) (snd (luaL_loadstring e s s0))")
     (auto simp: do_string_state_def chunk_ok_def Let_def split: option.splits)

lemma snd_do_string_state:
  "chunk_ok e c s s0 \<Longrightarrow> snd (do_string_state e c s s0) = chunk_state e c s s0"
  by (cases "luaL_loadstring e s s0"; cases "lua_pcall e (errfunc_of c) (snd (luaL_loadstring e s s0))")
     (auto simp: do_string_state_def chunk_ok_def chunk_state_def Let_def split: option.splits)

lemma fst_do_string_L:
  "fst (do_string_L e c L s w) = Returned () \<longleftrightarrow> chunk_ok e c s (heap w L)"
  by (simp add: do_string_L_def run_on_eq fst_do_string_state)

lemma heap_do_string_L:
  "chunk_ok e c s (heap w L) \<Longrightarrow>
     heap (snd (do_string_L e c L s w)) L = chunk_state e c s (heap w L)"
  by (simp add: do_string_L_def run_on_eq snd_do_string_state)






lemma fst_do_file_state:
  "file_ok e c f s0 \<Longrightarrow> fst (do_file_state e c f s0) = Returned ()"
  by (cases "luaL_loadfile e f s0"; cases "lua_pcall e (errfunc_of c) (snd (luaL_loadfile e f s0))")
     (auto simp: do_file_state_def do_file_call_def file_ok_def Let_def)

lemma snd_do_file_state:
  "file_ok e c f s0 \<Longrightarrow> snd (do_file_state e c f s0) = file_state e c f s0"
  by (cases "luaL_loadfile e f s0"; cases "lua_pcall e (errfunc_of c) (snd (luaL_loadfile e f s0))")
     (auto simp: do_file_state_def do_file_call_def file_ok_def file_state_def Let_def)

lemma do_file_call_Returned:
  "fst (do_file_call e c f s1) = Returned () \<longleftrightarrow> fst (lua_pcall e (errfunc_of c) s1) = 0"
  by (cases "lua_pcall e (errfunc_of c) s1")
     (auto simp: do_file_call_def Let_def split: option.splits)

lemma do_file_state_Returned:
  assumes "fst (do_file_state e c f s0) = Returned ()" and "fst (luaL_loadfile e f s0) = 0"
  shows "file_ok e c f s0"
  using assms
  by (cases "luaL_loadfile e f s0")
     (auto simp: do_file_state_def file_ok_def Let_def do_file_call_Returned)

lemma do_file_state_documented:
  assumes "fst (do_file_state e c f s0) = Returned ()"
    and "fst (luaL_loadfile e f s0) \<in> {0, LUA_ERRSYNTAX, LUA_ERRMEM, LUA_ERRFILE}"
  shows "file_ok e c f s0"
proof (rule do_file_state_Returned [OF assms(1)])
  show "fst (luaL_loadfile e f s0) = 0"
  proof (rule ccontr)
    assume n: "fst (luaL_loadfile e f s0) \<noteq> 0"
    with assms(2) have "\<exists>x. fst (do_file_state e c f s0) = Threw x"
      by (cases "luaL_loadfile e f s0")
         (auto simp: do_file_state_def Let_def LUA_ERRSYNTAX_def LUA_ERRMEM_def LUA_ERRFILE_def
               split: option.splits)
    with assms(1) show False by auto
  qed
qed

lemma fst_do_file_L:
  "file_ok e c f (heap w L) \<Longrightarrow> fst (do_file_L e c L f w) = Returned ()"
  by (simp add: do_file_L_def run_on_eq fst_do_file_state)

lemma heap_do_file_L:
  "file_ok e c f (heap w L) \<Longrightarrow>
     heap (snd (do_file_L e c L f w)) L = file_state e c f (heap w L)"
  by (simp add: do_file_L_def run_on_eq snd_do_file_state)

lemma run_script_ok:
  assumes "script_ok e c s (heap w L)"
  shows "fst (run_script e c L s w) = Returned ()"
    and "heap (snd (run_script e c L s w)) L = script_state e c s (heap w L)"
  using assms
  by (simp_all add: run_script_def script_ok_def script_state_def fst_do_file_L heap_do_file_L
        fst_do_string_L heap_do_string_L)

lemma run_script_Returned:
  assumes "fst (run_script e c L s w) = Returned ()" and "documented_status e s (heap w L)"
  shows "script_ok e c s (heap w L)"
proof (cases "access_R_OK e s")
  case True
  with assms have "fst (do_file_state e c s (heap w L)) = Returned ()"
    "fst (luaL_loadfile e s (heap w L)) \<in> {0, LUA_ERRSYNTAX, LUA_ERRMEM, LUA_ERRFILE}"
    by (simp_all add: run_script_def do_file_L_def run_on_eq documented_status_def)
  then have "file_ok e c s (heap w L)" by (rule do_file_state_documented)
  with True show ?thesis by (simp add: script_ok_def)
next
  case False
  with assms show ?thesis by (simp add: run_script_def script_ok_def fst_do_string_L)
qed

lemma errfunc_of_update [simp]:
  "errfunc_of (c\<lparr>start_script := x\<rparr>) = errfunc_of c"
  "errfunc_of (c\<lparr>ctx_L := L\<rparr>) = errfunc_of c"
  "errfunc_of (c\<lparr>packages := ps\<rparr>) = errfunc_of c"
  by (simp_all add: errfunc_of_def)


section \<open>The callbacks of the watchers\<close>

lemma init_watchers_notified:
  "init_watchers e L ws w = (Returned (), w') \<Longrightarrow>
     none_throws (lua_init e) ws (heap w L) \<and> heap w' L = notified (lua_init e) ws (heap w L)"
proof (induction ws arbitrary: w)
  case Nil
  then show ?case by simp
next
  case (Cons i ws)
  let ?w1 = "on_state L (\<lambda>u. snd (lua_init e i (heap w L))) (emit (Init i L) w)"
  from Cons.prems have 1: "fst (lua_init e i (heap w L)) = None"
    and 2: "init_watchers e L ws ?w1 = (Returned (), w')"
    by (auto simp: run_on_eq split: option.splits)
  from Cons.IH [OF 2] 1 show ?case by simp
qed

lemma notify_watchers_Returned:
  "notify_watchers ev f L ws w = (Returned (), w') \<Longrightarrow>
     trace w' = trace w @ map ev ws \<and> heap w' L = notified f ws (heap w L)"
proof (induction ws arbitrary: w)
  case Nil
  then show ?case by simp
next
  case (Cons i ws)
  let ?w1 = "on_state L (\<lambda>u. snd (f i (heap w L))) (emit (ev i) w)"
  from Cons.prems have "notify_watchers ev f L ws ?w1 = (Returned (), w')"
    by (auto simp: run_on_eq split: option.splits if_splits)
  from Cons.IH [OF this] show ?case by simp
qed

lemma notify_watchers_returns:
  "throws_Exceptions_only f \<Longrightarrow> fst (notify_watchers ev f L ws w) = Returned ()"
proof (induction ws arbitrary: w)
  case Nil
  then show ?case by simp
next
  case (Cons i ws)
  from Cons.prems have "fst (f i (heap w L)) = Some x \<Longrightarrow> is_Exception x" for x
    by (auto simp: throws_Exceptions_only_def)
  with Cons.IH [OF Cons.prems] show ?case
    by (auto simp: run_on_eq split: option.splits)
qed

lemma notify_watchers_Threw:
  "notify_watchers ev f L ws w = (Threw x, w') \<Longrightarrow>
     \<not> is_Exception x \<and> (\<exists>k. trace w' = trace w @ map ev (take (Suc k) ws))"
proof (induction ws arbitrary: w)
  case Nil
  then show ?case by simp
next
  case (Cons i ws)
  let ?w1 = "on_state L (\<lambda>u. snd (f i (heap w L))) (emit (ev i) w)"
  show ?case
  proof (cases "notify_watchers ev f L ws ?w1 = (Threw x, w')")
    case True
    from Cons.IH [OF True] obtain k where
      "\<not> is_Exception x" "trace w' = trace ?w1 @ map ev (take (Suc k) ws)" by blast
    then have "\<not> is_Exception x \<and> trace w' = trace w @ map ev (take (Suc (Suc k)) (i # ws))"
      by simp
    then show ?thesis by blast
  next
    case False
    with Cons.prems have "\<not> is_Exception x \<and> w' = ?w1"
      by (auto simp: run_on_eq split: option.splits if_splits)
    then have "\<not> is_Exception x \<and> trace w' = trace w @ map ev (take (Suc 0) (i # ws))"
      by simp
    then show ?thesis by blast
  qed
qed

lemma next_ref_notify_watchers: "next_ref (snd (notify_watchers ev f L ws w)) = next_ref w"
  by (induction ws arbitrary: w) (auto simp: run_on_eq split: option.splits)

lemma heap_notify_watchers_other:
  "L' \<noteq> L \<Longrightarrow> heap (snd (notify_watchers ev f L ws w)) L' = heap w L'"
  by (induction ws arbitrary: w) (auto simp: run_on_eq split: option.splits)

section \<open>Restart\<close>

lemma heap_init_state_other:
  assumes "L' \<noteq> next_ref w"
  shows "heap (snd (init_state e c w)) L' = heap w L'"
proof -
  obtain w0 where w0: "open_state c w = (next_ref w, w0)" and h0: "heap w0 L' = heap w L'"
    using open_state_eq [of c w] heap_open_state_other [OF assms, of c] by auto
  have sc: "heap (snd (case start_script c of None \<Rightarrow> (Returned (), w')
                        | Some script \<Rightarrow> run_script e c (next_ref w) script w')) L' = heap w L'"
    if "heap w' L' = heap w L'" for w'
    using that assms by (cases "start_script c") (simp_all add: heap_run_script_other)
  have "heap (snd (init_state e c w)) L' = heap w L'"
    unfolding init_state_def w0 Let_def prod.case
    by (intro heap_and_then)
       (simp_all add: heap_replay_other heap_init_watchers_other assms h0 sc)
  then show ?thesis .
qed

lemma next_ref_init_state: "next_ref (snd (init_state e c w)) = Suc (next_ref w)"
proof -
  obtain w0 where w0: "open_state c w = (next_ref w, w0)" and n0: "next_ref w0 = Suc (next_ref w)"
    using open_state_eq [of c w] next_ref_open_state [of c w] by auto
  have sc: "next_ref (snd (case start_script c of None \<Rightarrow> (Returned (), w')
                        | Some script \<Rightarrow> run_script e c (next_ref w) script w')) = Suc (next_ref w)"
    if "next_ref w' = Suc (next_ref w)" for w'
    using that by (cases "start_script c") (simp_all add: next_ref_run_script)
  show ?thesis
    unfolding init_state_def w0 Let_def prod.case
    by (intro next_ref_and_then)
       (simp_all add: next_ref_replay next_ref_init_watchers n0 sc)
qed

lemma finalize_watchers_not_caught:
  "finalize_watchers e L ws w = (Threw x, w') \<Longrightarrow> \<not> is_Exception x"
  unfolding finalize_watchers_def using notify_watchers_Threw by blast

lemma restarted_watchers_not_caught:
  "restarted_watchers e L ws w = (Threw x, w') \<Longrightarrow> \<not> is_Exception x"
  unfolding restarted_watchers_def using notify_watchers_Threw by blast

lemma restart_init_Returned:
  assumes "init_state e c w = (Returned L, w1)"
  shows "restart e c w =
           (case finalize_watchers e (ctx_L c) (watchers c) w1 of
              (Threw x, w2) \<Rightarrow> (Threw x, c, w2)
            | (Returned u, w2) \<Rightarrow>
                (case restarted_watchers e L (watchers c) (close_state (ctx_L c) w2) of
                   (r, w4) \<Rightarrow> (r, c\<lparr>ctx_L := L\<rparr>, w4)))"
proof (cases "finalize_watchers e (ctx_L c) (watchers c) w1")
  case (Pair r w2)
  show ?thesis
  proof (cases r)
    case (Threw x)
    with Pair finalize_watchers_not_caught have "\<not> is_Exception x" by blast
    with Pair Threw assms show ?thesis
      by (simp add: restart_def restart_body_def catch_Exception_def Let_def)
  next
    case (Returned u)
    obtain r4 w4 where 4: "restarted_watchers e L (watchers c) (close_state (ctx_L c) w2) = (r4, w4)"
      by (cases "restarted_watchers e L (watchers c) (close_state (ctx_L c) w2)")
    show ?thesis
    proof (cases r4)
      case (Threw x)
      with 4 restarted_watchers_not_caught have "\<not> is_Exception x" by blast
      with Pair Returned 4 Threw assms show ?thesis
        by (simp add: restart_def restart_body_def catch_Exception_def Let_def)
    next
      case (Returned u')
      with Pair \<open>r = Returned u\<close> 4 assms show ?thesis
        by (simp add: restart_def restart_body_def catch_Exception_def Let_def)
    qed
  qed
qed

lemma restart_init_Threw:
  assumes "init_state e c w = (Threw x, w1)"
  shows "restart e c w = ((if is_Exception x then Returned () else Threw x), c, w1)"
  using assms by (simp add: restart_def restart_body_def catch_Exception_def)

lemma restart_Returned:
  assumes i: "init_state e c w = (Returned L, w1)"
    and r: "restart e c w = (Returned (), c', w')"
  shows "c' = c\<lparr>ctx_L := L\<rparr>"
    and "trace w' = trace w @ init_events e c L @ swap_events c L"
    and "ctx_L c \<noteq> L \<Longrightarrow>
           heap w' (ctx_L c)
             = lua_close (notified (lua_finalize e) (watchers c) (heap w (ctx_L c)))"
    and "ctx_L c \<noteq> L \<Longrightarrow> heap w' L = notified (lua_restarted e) (watchers c) (heap w1 L)"
    and "L' \<noteq> L \<Longrightarrow> L' \<noteq> ctx_L c \<Longrightarrow> heap w' L' = heap w L'"
proof -
  obtain r2 w2 where 2: "finalize_watchers e (ctx_L c) (watchers c) w1 = (r2, w2)"
    by (cases "finalize_watchers e (ctx_L c) (watchers c) w1")
  with r restart_init_Returned [OF i] have r2: "r2 = Returned ()"
    by (cases r2) simp_all
  let ?w3 = "close_state (ctx_L c) w2"
  from r restart_init_Returned [OF i] 2 r2
  have 4: "restarted_watchers e L (watchers c) ?w3 = (Returned (), w')" and c': "c' = c\<lparr>ctx_L := L\<rparr>"
    by (auto split: prod.splits)
  show "c' = c\<lparr>ctx_L := L\<rparr>" by (rule c')
  note f = notify_watchers_Returned [OF 2 [unfolded r2 finalize_watchers_def]]
  note s = notify_watchers_Returned [OF 4 [unfolded restarted_watchers_def]]
  from f s trace_init_state [OF i]
  show "trace w' = trace w @ init_events e c L @ swap_events c L"
    by (simp add: swap_events_def)
  have L: "L = next_ref w" by (rule init_state_Returned(1) [OF i])
  have h1: "heap w1 L' = heap w L'" if "L' \<noteq> L" for L'
    using heap_init_state_other [of L' w e c] that i L by simp
  have h2: "heap w2 L' = heap w1 L'" if "L' \<noteq> ctx_L c" for L'
    using heap_notify_watchers_other [OF that, of "\<lambda>i. Finalize i (ctx_L c)" "lua_finalize e"
        "watchers c" w1] 2
    by (simp add: finalize_watchers_def)
  have h4: "heap w' L' = heap ?w3 L'" if "L' \<noteq> L" for L'
    using heap_notify_watchers_other [OF that, of "\<lambda>i. Restarted i L" "lua_restarted e"
        "watchers c" ?w3] 4
    by (simp add: restarted_watchers_def)
  show "heap w' (ctx_L c)
          = lua_close (notified (lua_finalize e) (watchers c) (heap w (ctx_L c)))"
    if "ctx_L c \<noteq> L"
    using h4 [OF that] f h1 [OF that] by simp
  show "heap w' L = notified (lua_restarted e) (watchers c) (heap w1 L)" if "ctx_L c \<noteq> L"
    using s h2 [of L] that by simp
  show "heap w' L' = heap w L'" if "L' \<noteq> L" "L' \<noteq> ctx_L c"
    using h4 [OF that(1)] h2 [OF that(2)] h1 [OF that(1)] that by simp
qed

lemma restart_returns:
  assumes i: "init_state e c w = (Returned L, w1)"
    and "throws_Exceptions_only (lua_finalize e)" "throws_Exceptions_only (lua_restarted e)"
  shows "\<exists>w'. restart e c w = (Returned (), c\<lparr>ctx_L := L\<rparr>, w')"
proof -
  obtain w2 where 2: "finalize_watchers e (ctx_L c) (watchers c) w1 = (Returned (), w2)"
    using notify_watchers_returns [OF assms(2), of "\<lambda>i. Finalize i (ctx_L c)" "ctx_L c"
        "watchers c" w1]
    by (cases "finalize_watchers e (ctx_L c) (watchers c) w1")
       (simp add: finalize_watchers_def)
  obtain w4 where "restarted_watchers e L (watchers c) (close_state (ctx_L c) w2) = (Returned (), w4)"
    using notify_watchers_returns [OF assms(3), of "\<lambda>i. Restarted i L" L
        "watchers c" "close_state (ctx_L c) w2"]
    by (cases "restarted_watchers e L (watchers c) (close_state (ctx_L c) w2)")
       (simp add: restarted_watchers_def)
  with 2 restart_init_Returned [OF i] show ?thesis by simp
qed

lemma restart_context:
  assumes "restart e c w = (r, c', w')"
  shows "c' = c \<or> (\<exists>L. c' = c\<lparr>ctx_L := L\<rparr>)"
proof (cases "init_state e c w")
  case (Pair ri w1)
  show ?thesis
  proof (cases ri)
    case (Threw x)
    with Pair assms restart_init_Threw [of e c w x w1] show ?thesis by simp
  next
    case (Returned L)
    with Pair assms restart_init_Returned [of e c w L w1] show ?thesis
      by (auto split: prod.splits result.splits)
  qed
qed

lemma bindings_ok_restart:
  assumes "bindings_ok c" "restart e c w = (r, c', w')"
  shows "bindings_ok c'"
  using restart_context [OF assms(2)] assms(1) by auto

lemma restart_failure:
  assumes "init_state e c w = (Threw x, w1)" and "is_Exception x"
  shows "restart e c w = (Returned (), c, w1)"
    and "\<exists>evs. trace w1 = trace w @ evs
           \<and> list_all (\<lambda>ev. (\<exists>s. ev = DoString (next_ref w) s) \<or> (\<exists>f. ev = DoFile (next_ref w) f)
                            \<or> (\<exists>i. ev = Init i (next_ref w)) \<or> ev = Close (next_ref w)) evs"
    and "L' \<noteq> next_ref w \<Longrightarrow> heap w1 L' = heap w L'"
proof -
  from assms show "restart e c w = (Returned (), c, w1)"
    by (simp add: restart_init_Threw)
  from init_state_trace [of e c w] assms(1)
  show "\<exists>evs. trace w1 = trace w @ evs
           \<and> list_all (\<lambda>ev. (\<exists>s. ev = DoString (next_ref w) s) \<or> (\<exists>f. ev = DoFile (next_ref w) f)
                            \<or> (\<exists>i. ev = Init i (next_ref w)) \<or> ev = Close (next_ref w)) evs"
    by simp
  show "heap w1 L' = heap w L'" if "L' \<noteq> next_ref w"
    using heap_init_state_other [OF that, of e c] assms(1) by simp
qed

section \<open>Evaluating the examples\<close>

lemmas lua_api_defs =
  lua_tostring_def index2pos_def lua_gettop_def lua_push_def lua_pop_def lua_settop_def
  lua_remove_def lua_getfield_def lua_getglobal_def luaL_openlibs_def new_lua_State_def
  lua_setglobal_def lua_close_def standard_libs_def

lemmas init_state_defs =
  init_state_def open_state_def newstate_def replay_def replay_bindings_def do_string_L_def
  run_on_def do_string_state_def do_file_L_def do_file_state_def do_file_call_def
  run_script_def Let_def LUA_ERRSYNTAX_def LUA_ERRMEM_def LUA_ERRFILE_def LUA_ERRRUN_def
  LUA_ERRERR_def

section \<open>Setting global variables: the properties\<close>

text \<open>
  Claim C5: each of \<^verbatim>\<open>set_usertype\<close>, \<^verbatim>\<open>set_string\<close>, \<^verbatim>\<open>set_boolean\<close>,
  \<^verbatim>\<open>set_number\<close>, \<^verbatim>\<open>set_integer\<close> and \<^verbatim>\<open>set_cfunction\<close> that returns
  has set the global variable of that name in the current state to the value and has
  recorded the value under that name in the map of its kind.
\<close>

theorem set_sets_global_and_records:
  assumes "perform name b c w = (Returned (), c', w')"
  shows "global_of c' w' name = pushed_value b
         \<and> recorded (kind_of b) c' name = Some (pushed_value b)"
proof -
  from assert_unique_name_cases [of c name "kind_name (kind_of b)"]
  have a: "assert_unique_name c name (kind_name (kind_of b)) = Returned ()"
  proof
    assume "\<exists>x. assert_unique_name c name (kind_name (kind_of b)) = Threw x"
    then obtain x where "perform name b c w = (Threw x, c, w)"
      using perform_threw by blast
    with assms show ?thesis by simp
  qed
  from perform_returned [OF a, of w] assms
  have c': "w' = push_setglobal (pushed_value b) name c w" "ctx_L c' = ctx_L c"
    "recorded (kind_of b) c' name = Some (pushed_value b)"
    by auto
  then show ?thesis
    by (simp add: global_of_def globals_push_setglobal)
qed

theorem set_sets_global_and_records_witness:
  "perform ''ROBOT'' (Set_string ''pepper'') example_ctx example_world
     = (Returned (), example_ctx\<lparr>strings := [(''ROBOT'', ''pepper'')]\<rparr>,
        push_setglobal (LString ''pepper'') ''ROBOT'' example_ctx example_world)
   \<and> global_of (example_ctx\<lparr>strings := [(''ROBOT'', ''pepper'')]\<rparr>)
        (push_setglobal (LString ''pepper'') ''ROBOT'' example_ctx example_world) ''ROBOT''
       = LString ''pepper''
   \<and> recorded String (example_ctx\<lparr>strings := [(''ROBOT'', ''pepper'')]\<rparr>) ''ROBOT''
       = Some (LString ''pepper'')"
proof -
  have p: "perform ''ROBOT'' (Set_string ''pepper'') example_ctx example_world
     = (Returned (), example_ctx\<lparr>strings := [(''ROBOT'', ''pepper'')]\<rparr>,
        push_setglobal (LString ''pepper'') ''ROBOT'' example_ctx example_world)"
    by (simp add: set_string_def assert_unique_name_def has_key_def map_find_def example_ctx_def)
  from set_sets_global_and_records [OF p] p show ?thesis by simp
qed

text \<open>
  Claim C8: names are unique across the six maps. A \<^verbatim>\<open>set_*\<close> call whose name is
  recorded in the map of another kind throws and leaves the context and every interpreter
  state as they were; a call whose name is recorded in no map of another kind returns, and
  the map of its own kind and the global variable then hold the new value.
\<close>

theorem set_unique_name:
  "((\<exists>k. k \<noteq> kind_of b \<and> recorded k c name \<noteq> None)
      \<longrightarrow> (\<exists>x. perform name b c w = (Threw x, c, w)))
   \<and> ((\<forall>k. k \<noteq> kind_of b \<longrightarrow> recorded k c name = None)
      \<longrightarrow> (\<exists>c' w'. perform name b c w = (Returned (), c', w')
            \<and> recorded (kind_of b) c' name = Some (pushed_value b)
            \<and> global_of c' w' name = pushed_value b))"
proof (intro conjI impI)
  assume "\<exists>k. k \<noteq> kind_of b \<and> recorded k c name \<noteq> None"
  then obtain x where "assert_unique_name c name (kind_name (kind_of b)) = Threw x"
    using assert_unique_name_throws by blast
  then show "\<exists>x. perform name b c w = (Threw x, c, w)"
    using perform_threw by blast
next
  assume "\<forall>k. k \<noteq> kind_of b \<longrightarrow> recorded k c name = None"
  then have "assert_unique_name c name (kind_name (kind_of b)) = Returned ()"
    by (rule assert_unique_name_returns)
  then obtain c' where
    c': "perform name b c w = (Returned (), c', push_setglobal (pushed_value b) name c w)"
    "ctx_L c' = ctx_L c" "recorded (kind_of b) c' name = Some (pushed_value b)"
    using perform_returned by blast
  have "global_of c' (push_setglobal (pushed_value b) name c w) name = pushed_value b"
    by (simp add: global_of_def c'(2) globals_push_setglobal)
  with c' show "\<exists>c' w'. perform name b c w = (Returned (), c', w')
            \<and> recorded (kind_of b) c' name = Some (pushed_value b)
            \<and> global_of c' w' name = pushed_value b"
    by blast
qed

theorem set_unique_name_witness:
  "(\<exists>x. perform ''ROBOT'' (Set_number 1) example_ctx example_world
          = (Threw x, example_ctx, example_world))
   \<and> recorded String example_ctx ''ROBOT'' = Some (LString ''nao'')
   \<and> (\<exists>c' w'. perform ''ROBOT'' (Set_string ''pepper'') example_ctx example_world
                 = (Returned (), c', w')
         \<and> recorded String c' ''ROBOT'' = Some (LString ''pepper'')
         \<and> global_of c' w' ''ROBOT'' = LString ''pepper'')"
proof -
  have 1: "\<exists>k. k \<noteq> kind_of (Set_number 1) \<and> recorded k example_ctx ''ROBOT'' \<noteq> None"
    by (rule exI [of _ String]) (simp add: example_ctx_def map_find_def)
  have 2: "\<forall>k. k \<noteq> kind_of (Set_string ''pepper'') \<longrightarrow> recorded k example_ctx ''ROBOT'' = None"
  proof (intro allI impI)
    fix k assume "k \<noteq> kind_of (Set_string ''pepper'')"
    then show "recorded k example_ctx ''ROBOT'' = None"
      by (cases k) (simp_all add: example_ctx_def map_find_def)
  qed
  have 3: "recorded String example_ctx ''ROBOT'' = Some (LString ''nao'')"
    by (simp add: example_ctx_def map_find_def)
  show ?thesis
    using set_unique_name [of "Set_number 1" example_ctx "''ROBOT''" example_world] 1
          set_unique_name [of "Set_string ''pepper''" example_ctx "''ROBOT''" example_world] 2 3
    by simp
qed

section \<open>The traceback function\<close>

text \<open>
  Claim C9, as the code has it: with tracebacks enabled, the new state starts with
  \<^verbatim>\<open>debug.traceback\<close> as its only stack element; \<^verbatim>\<open>pop(n)\<close> with
  \<open>n \<ge> stack_size()\<close> throws a \<^verbatim>\<open>LuaRuntimeException\<close> and changes nothing, and
  so does \<^verbatim>\<open>remove(idx)\<close> for \<open>idx = 1\<close> and \<open>idx = - stack_size()\<close>;
  \<^verbatim>\<open>pop(n)\<close> with \<open>0 \<le> n < stack_size()\<close> and \<^verbatim>\<open>remove(idx)\<close> with any
  other index return and leave the bottom element of the stack in place.
\<close>

theorem traceback_function_protected:
  assumes "enable_tracebacks c"
  shows "stack (heap (snd (open_state c w0)) (fst (open_state c w0)))
           = [LLibFunction ''debug'' ''traceback'']
    \<and> (stack_size c w \<le> n \<longrightarrow>
          pop n c w = (Threw (LuaRuntimeException ''pop''
                         ''Cannot pop traceback function, invalid n''), w))
    \<and> (idx = 1 \<or> idx = - stack_size c w \<longrightarrow>
          remove_idx idx c w = (Threw (LuaRuntimeException ''pop''
                                  ''Cannot remove traceback function''), w))
    \<and> (0 \<le> n \<and> n < stack_size c w \<longrightarrow>
          fst (pop n c w) = Returned ()
          \<and> take 1 (stack (heap (snd (pop n c w)) (ctx_L c))) = take 1 (stack (heap w (ctx_L c))))
    \<and> (idx \<noteq> 1 \<and> idx \<noteq> - stack_size c w \<and> stack_size c w \<noteq> 0 \<longrightarrow>
          fst (remove_idx idx c w) = Returned ()
          \<and> take 1 (stack (heap (snd (remove_idx idx c w)) (ctx_L c)))
              = take 1 (stack (heap w (ctx_L c))))"
proof (intro conjI impI)
  show "stack (heap (snd (open_state c w0)) (fst (open_state c w0)))
           = [LLibFunction ''debug'' ''traceback'']"
    using assms stack_open_state [of c w0] open_state_eq [of c w0]
    by (metis fst_conv)
next
  assume "stack_size c w \<le> n"
  with assms show "pop n c w = (Threw (LuaRuntimeException ''pop''
                         ''Cannot pop traceback function, invalid n''), w)"
    by (simp add: pop_def)
next
  assume "idx = 1 \<or> idx = - stack_size c w"
  with assms show "remove_idx idx c w = (Threw (LuaRuntimeException ''pop''
                                  ''Cannot remove traceback function''), w)"
    by (simp add: remove_idx_def)
next
  assume a: "0 \<le> n \<and> n < stack_size c w"
  then show "fst (pop n c w) = Returned ()"
    by (simp add: pop_def)
  from a have "n < lua_gettop (heap w (ctx_L c))" "0 \<le> n"
    by (simp_all add: stack_size_def)
  from pop_keeps_bottom(1) [OF this(2) this(1)] a
  show "take 1 (stack (heap (snd (pop n c w)) (ctx_L c))) = take 1 (stack (heap w (ctx_L c)))"
    by (simp add: pop_def)
next
  assume a: "idx \<noteq> 1 \<and> idx \<noteq> - stack_size c w \<and> stack_size c w \<noteq> 0"
  then show "fst (remove_idx idx c w) = Returned ()"
    by (simp add: remove_idx_def)
  from a have "idx \<noteq> 1" "idx \<noteq> - lua_gettop (heap w (ctx_L c))" "stack (heap w (ctx_L c)) \<noteq> []"
    by (auto simp: stack_size_def lua_gettop_def)
  from remove_keeps_bottom(1) [OF this] a
  show "take 1 (stack (heap (snd (remove_idx idx c w)) (ctx_L c)))
              = take 1 (stack (heap w (ctx_L c)))"
    by (simp add: remove_idx_def)
qed


lemma example_stack:
  "stack (heap (on_state 0 (lua_push (LString ''result'')) example_world) 0)
     = [LLibFunction ''debug'' ''traceback'', LString ''result'']"
  by (simp add: example_world_def lua_push_def luaL_openlibs_def new_lua_State_def)

theorem traceback_function_protected_witness:
  "enable_tracebacks example_ctx
   \<and> stack (heap (snd (open_state example_ctx empty_world)) 0)
        = [LLibFunction ''debug'' ''traceback'']
   \<and> stack_size example_ctx (on_state 0 (lua_push (LString ''result'')) example_world) = 2
   \<and> fst (pop 2 example_ctx (on_state 0 (lua_push (LString ''result'')) example_world))
        = Threw (LuaRuntimeException ''pop'' ''Cannot pop traceback function, invalid n'')
   \<and> fst (remove_idx (- 2) example_ctx (on_state 0 (lua_push (LString ''result'')) example_world))
        = Threw (LuaRuntimeException ''pop'' ''Cannot remove traceback function'')
   \<and> fst (pop 1 example_ctx (on_state 0 (lua_push (LString ''result'')) example_world))
        = Returned ()
   \<and> take 1 (stack (heap (snd (pop 1 example_ctx
          (on_state 0 (lua_push (LString ''result'')) example_world))) 0))
        = [LLibFunction ''debug'' ''traceback'']
   \<and> take 1 (stack (heap (snd (remove_idx 2 example_ctx
          (on_state 0 (lua_push (LString ''result'')) example_world))) 0))
        = [LLibFunction ''debug'' ''traceback'']"
proof -
  let ?w = "on_state 0 (lua_push (LString ''result'')) example_world"
  have tb: "enable_tracebacks example_ctx" and L: "ctx_L example_ctx = 0"
    by (simp_all add: example_ctx_def)
  have sz: "stack_size example_ctx ?w = 2"
    using example_stack by (simp add: stack_size_def lua_gettop_def L)
  have o: "fst (open_state example_ctx empty_world) = 0"
    by (simp add: open_state_def newstate_def empty_world_def Let_def)
  from traceback_function_protected [OF tb, of empty_world ?w 2 "- 2"]
       traceback_function_protected [OF tb, of empty_world ?w 1 2]
       tb sz o L example_stack
  show ?thesis by simp
qed

text \<open>
  Claim C9 says that \<^verbatim>\<open>pop\<close> never removes the traceback function. A negative
  \<open>n\<close> passes the guard \<open>n \<ge> stack_size()\<close>, and \<^verbatim>\<open>lua_pop(L, -1)\<close> is
  \<^verbatim>\<open>lua_settop(L, 0)\<close>: the stack is emptied, the traceback function with it.
\<close>

theorem pop_negative_counterexample:
  "enable_tracebacks example_ctx
   \<and> stack (heap example_world (ctx_L example_ctx)) = [LLibFunction ''debug'' ''traceback'']
   \<and> fst (pop (- 1) example_ctx example_world) = Returned ()
   \<and> stack (heap (snd (pop (- 1) example_ctx example_world)) (ctx_L example_ctx)) = []"
  by (simp add: example_ctx_def example_world_def pop_def stack_size_def lua_gettop_def
      lua_pop_def lua_settop_def luaL_openlibs_def new_lua_State_def)

section \<open>A restart that fails: the new state\<close>

lemmas restart_defs =
  restart_def restart_body_def catch_Exception_def finalize_watchers_def
  restarted_watchers_def LuaContext_delete_def

lemma broken_init_state:
  "fst (init_state broken_script_env example_ctx example_world)
     = Threw (Exception ''Lua syntax error in file /opt/start.lua: unexpected symbol'')"
  "trace (snd (init_state broken_script_env example_ctx example_world))
       = [DoString 1 (package_path_code ''/opt/lua''),
          DoString 1 (package_cpath_code ''/opt/lib''),
          DoString 1 (require_code ''fawkesutils''),
          Init 7 1, Init 8 1, DoFile 1 ''/opt/start.lua'']"
  "is_open (heap (snd (init_state broken_script_env example_ctx example_world)) 1)"
  by (simp_all add: init_state_defs lua_api_defs
      broken_script_env_def example_env_def example_ctx_def example_world_def)

text \<open>
  Claim C2 at a start script that fails to load: \<^verbatim>\<open>init_state\<close> throws after the
  new state has been created and the watchers initialised; \<^verbatim>\<open>restart\<close> catches the
  exception and returns with the context unchanged and without a
  \<^verbatim>\<open>lua_finalize\<close> or \<^verbatim>\<open>lua_restarted\<close> callback. But nothing has closed the
  new state: only the handler around \<^verbatim>\<open>lua_init\<close> calls \<^verbatim>\<open>lua_close\<close>, and
  an exception from \<^verbatim>\<open>do_string\<close> or \<^verbatim>\<open>do_file\<close> leaves the new state open.
\<close>

theorem restart_leaves_failed_state_open:
  "fst (init_state broken_script_env example_ctx example_world)
     = Threw (Exception ''Lua syntax error in file /opt/start.lua: unexpected symbol'')
   \<and> fst (restart broken_script_env example_ctx example_world) = Returned ()
   \<and> fst (snd (restart broken_script_env example_ctx example_world)) = example_ctx
   \<and> trace (snd (snd (restart broken_script_env example_ctx example_world)))
       = [DoString 1 (package_path_code ''/opt/lua''),
          DoString 1 (package_cpath_code ''/opt/lib''),
          DoString 1 (require_code ''fawkesutils''),
          Init 7 1, Init 8 1, DoFile 1 ''/opt/start.lua'']
   \<and> is_open (heap (snd (snd (restart broken_script_env example_ctx example_world))) 1)"
proof -
  let ?x = "Exception ''Lua syntax error in file /opt/start.lua: unexpected symbol''"
  have "init_state broken_script_env example_ctx example_world
          = (Threw ?x, snd (init_state broken_script_env example_ctx example_world))"
    using broken_init_state(1) by (simp add: prod_eq_iff)
  from restart_init_Threw [OF this] broken_init_state show ?thesis
    by simp
qed

section \<open>The filter of the file monitor\<close>

lemma scan_lua_filter:
  "scan Plain None (''[^.].*'' @ [CHR 0x5C] @ ''.lua'')
     = [Once (NoneOf ''.''), Star Any, Once (Lit CHR ''.''), Once (Lit CHR ''l''),
        Once (Lit CHR ''u''), Once (Lit CHR ''a'')]"
  by (simp add: flush_def)

lemma items_match_Star_Any:
  "items_match (Star Any # r) s \<longleftrightarrow> (\<exists>pre suf. s = pre @ suf \<and> items_match r suf)"
proof (induction s)
  case Nil
  then show ?case by simp
next
  case (Cons c s)
  show ?case
  proof
    assume "items_match (Star Any # r) (c # s)"
    then consider "items_match r (c # s)" | "items_match (Star Any # r) s" by auto
    then show "\<exists>pre suf. c # s = pre @ suf \<and> items_match r suf"
    proof cases
      case 1
      then have "c # s = [] @ (c # s) \<and> items_match r (c # s)" by simp
      then show ?thesis by blast
    next
      case 2
      with Cons.IH obtain pre suf where "s = pre @ suf" "items_match r suf" by blast
      then have "c # s = (c # pre) @ suf \<and> items_match r suf" by simp
      then show ?thesis by blast
    qed
  next
    assume "\<exists>pre suf. c # s = pre @ suf \<and> items_match r suf"
    then obtain pre suf where ps: "c # s = pre @ suf" "items_match r suf" by blast
    show "items_match (Star Any # r) (c # s)"
    proof (cases pre)
      case Nil
      with ps have "items_match r (c # s)" by simp
      then show ?thesis by simp
    next
      case (Cons d pre')
      with ps have "s = pre' @ suf" by simp
      with ps(2) Cons.IH have "items_match (Star Any # r) s" by blast
      then show ?thesis by simp
    qed
  qed
qed

lemma items_match_literals:
  "items_match (map (\<lambda>c. Once (Lit c)) cs) s \<longleftrightarrow> s = cs"
proof (induction cs arbitrary: s)
  case Nil
  then show ?case by simp
next
  case (Cons c cs)
  then show ?case by (cases s) auto
qed

lemma regex_match_lua_filter: "regex_match lua_filter name \<longleftrightarrow> lua_module_name name"
proof -
  have r: "regex_match lua_filter name
             = items_match (Once (NoneOf ''.'') # Star Any # map (\<lambda>c. Once (Lit c)) ''.lua'') name"
    using scan_lua_filter by (simp add: regex_match_def lua_filter_def flush_def)
  show ?thesis
  proof (cases name)
    case Nil
    with r show ?thesis by (simp add: lua_module_name_def)
  next
    case (Cons c s)
    have "items_match (Star Any # map (\<lambda>c. Once (Lit c)) ''.lua'') s
            \<longleftrightarrow> (\<exists>pre. s = pre @ ''.lua'')"
      unfolding items_match_Star_Any items_match_literals by blast
    with r Cons show ?thesis
      by (auto simp: lua_module_name_def)
  qed
qed


lemma LuaContext_new_returns:
  "\<exists>c w1. LuaContext_new e watch_dirs tb w = (Returned c, w1)
     \<and> fam c = (if watch_dirs
                 then Some \<lparr>fam_filters = [lua_filter], fam_listeners = [This_LuaContext],
                            fam_dirs = [], fam_files = []\<rparr>
                 else None)"
  by (simp add: LuaContext_new_def init_state_def open_state_def newstate_def replay_def
      Let_def add_listener_def add_filter_def new_FileAlterationMonitor_def)

lemma watching_fam_watch_dir:
  "watching c \<Longrightarrow>
     watching (fam_watch_dir path c)
     \<and> set (watched_dirs (fam_watch_dir path c)) = insert path (set (watched_dirs c))"
  by (cases "fam c") (simp_all add: watching_def watched_dirs_def fam_watch_dir_def watch_dir_def)

lemma watching_package_dirs_update [simp]:
  "watching (c\<lparr>package_dirs := ds\<rparr>) = watching c"
  "watched_dirs (c\<lparr>package_dirs := ds\<rparr>) = watched_dirs c"
  "watching (c\<lparr>cpackage_dirs := ds\<rparr>) = watching c"
  "watched_dirs (c\<lparr>cpackage_dirs := ds\<rparr>) = watched_dirs c"
  by (simp_all add: watching_def watched_dirs_def)

lemma add_package_dir_watched:
  assumes "watching c" "add_package_dir e path c w = (Returned (), c', w')"
  shows "watching c' \<and> set (watched_dirs c') = insert path (set (watched_dirs c))"
proof -
  from assms(2) have "c' = fam_watch_dir path (c\<lparr>package_dirs := package_dirs c @ [path]\<rparr>)"
    by (auto simp: add_package_dir_def split: prod.splits result.splits)
  with assms(1) watching_fam_watch_dir [of "c\<lparr>package_dirs := package_dirs c @ [path]\<rparr>" path]
  show ?thesis by simp
qed

lemma add_cpackage_dir_watched:
  assumes "watching c" "add_cpackage_dir e path c w = (Returned (), c', w')"
  shows "watching c' \<and> set (watched_dirs c') = insert path (set (watched_dirs c))"
proof -
  from assms(2) have "c' = fam_watch_dir path (c\<lparr>cpackage_dirs := cpackage_dirs c @ [path]\<rparr>)"
    by (auto simp: add_cpackage_dir_def split: prod.splits result.splits)
  with assms(1) watching_fam_watch_dir [of "c\<lparr>cpackage_dirs := cpackage_dirs c @ [path]\<rparr>" path]
  show ?thesis by simp
qed

lemma file_changed_watching:
  assumes "watching c"
  shows "file_changed e dir name msk c w
           = (if dir \<in> set (watched_dirs c) \<and> lua_module_name name
              then restart e c w else (Returned (), c, w))"
proof -
  from assms obtain f where f: "fam c = Some f" "fam_filters f = [lua_filter]"
    "fam_listeners f = [This_LuaContext]"
    by (cases "fam c") (auto simp: watching_def)
  then show ?thesis
    by (simp add: file_changed_def fam_reports_def watched_dirs_def fam_event_def
        regex_match_lua_filter)
qed

text \<open>
  Claim C4: hot reload. A context constructed with \<^verbatim>\<open>watch_dirs = true\<close> has a file
  monitor with the one filter \<^verbatim>\<open>^[^.].*\.lua$\<close> and itself as the listener;
  \<^verbatim>\<open>fam_event\<close> is a restart; the filter matches exactly the names that do not begin
  with a dot and end in \<^verbatim>\<open>.lua\<close>; so for such a context a reported change restarts
  the interpreter if and only if the file is in a watched directory and has such a name;
  and the directories given to \<^verbatim>\<open>add_package_dir\<close>, \<^verbatim>\<open>add_cpackage_dir\<close> (when
  they return) and \<^verbatim>\<open>add_watchdir\<close> are watched from then on, next to the ones
  watched before.
\<close>

theorem hot_reload_on_lua_files:
  "(\<exists>c0 w1. LuaContext_new e True tb w0 = (Returned c0, w1) \<and> watching c0
       \<and> fam c0 = Some \<lparr>fam_filters = [lua_filter], fam_listeners = [This_LuaContext],
                         fam_dirs = [], fam_files = []\<rparr>)
   \<and> fam_event e filename msk c w = restart e c w
   \<and> (regex_match lua_filter name \<longleftrightarrow> lua_module_name name)
   \<and> (watching c \<longrightarrow>
         file_changed e dir name msk c w
           = (if dir \<in> set (watched_dirs c) \<and> lua_module_name name
              then restart e c w else (Returned (), c, w)))
   \<and> (watching c \<and> add_package_dir e path c w = (Returned (), c', w') \<longrightarrow>
         watching c' \<and> set (watched_dirs c') = insert path (set (watched_dirs c)))
   \<and> (watching c \<and> add_cpackage_dir e path c w = (Returned (), c', w') \<longrightarrow>
         watching c' \<and> set (watched_dirs c') = insert path (set (watched_dirs c)))
   \<and> (watching c \<longrightarrow>
         watching (add_watchdir path c)
         \<and> set (watched_dirs (add_watchdir path c)) = insert path (set (watched_dirs c)))"
proof (intro conjI impI)
  from LuaContext_new_returns [of e True tb w0]
  show "\<exists>c0 w1. LuaContext_new e True tb w0 = (Returned c0, w1) \<and> watching c0
       \<and> fam c0 = Some \<lparr>fam_filters = [lua_filter], fam_listeners = [This_LuaContext],
                         fam_dirs = [], fam_files = []\<rparr>"
    by (auto simp: watching_def)
  show "fam_event e filename msk c w = restart e c w"
    by (simp add: fam_event_def)
  show "regex_match lua_filter name \<longleftrightarrow> lua_module_name name"
    by (rule regex_match_lua_filter)
next
  assume "watching c"
  then show "file_changed e dir name msk c w
           = (if dir \<in> set (watched_dirs c) \<and> lua_module_name name
              then restart e c w else (Returned (), c, w))"
    by (rule file_changed_watching)
next
  assume a: "watching c \<and> add_package_dir e path c w = (Returned (), c', w')"
  then show "watching c'" "set (watched_dirs c') = insert path (set (watched_dirs c))"
    using add_package_dir_watched by blast+
next
  assume a: "watching c \<and> add_cpackage_dir e path c w = (Returned (), c', w')"
  then show "watching c'" "set (watched_dirs c') = insert path (set (watched_dirs c))"
    using add_cpackage_dir_watched by blast+
next
  assume "watching c"
  then show "watching (add_watchdir path c)"
    "set (watched_dirs (add_watchdir path c)) = insert path (set (watched_dirs c))"
    using watching_fam_watch_dir by (simp_all add: add_watchdir_def)
qed


lemma example_regex:
  "regex_match lua_filter ''skill.lua''" "\<not> regex_match lua_filter ''.skill.lua''"
  "\<not> regex_match lua_filter ''notes.txt''"
  by (simp_all add: regex_match_def lua_filter_def flush_def)

lemma example_add_package_dir:
  "fst (add_package_dir example_env ''/opt/skills'' watching_ctx example_world) = Returned ()"
  by (simp add: add_package_dir_def do_string_L_def run_on_def do_string_state_def Let_def
      example_env_def split: prod.splits)



theorem hot_reload_on_lua_files_witness:
  "watching watching_ctx
   \<and> regex_match lua_filter ''skill.lua''
   \<and> \<not> regex_match lua_filter ''.skill.lua''
   \<and> \<not> regex_match lua_filter ''notes.txt''
   \<and> file_changed example_env ''/opt/lua'' ''skill.lua'' 2 watching_ctx example_world
       = restart example_env watching_ctx example_world
   \<and> file_changed example_env ''/opt/lua'' ''.skill.lua'' 2 watching_ctx example_world
       = (Returned (), watching_ctx, example_world)
   \<and> file_changed example_env ''/opt/lua'' ''notes.txt'' 2 watching_ctx example_world
       = (Returned (), watching_ctx, example_world)
   \<and> file_changed example_env ''/tmp'' ''skill.lua'' 2 watching_ctx example_world
       = (Returned (), watching_ctx, example_world)
   \<and> fst (add_package_dir example_env ''/opt/skills'' watching_ctx example_world) = Returned ()
   \<and> set (watched_dirs (fst (snd (add_package_dir example_env ''/opt/skills'' watching_ctx
                                       example_world))))
       = {''/opt/skills'', ''/opt/lua''}"
proof -
  let ?r = "add_package_dir example_env ''/opt/skills'' watching_ctx example_world"
  have wt: "watching watching_ctx" and wd: "watched_dirs watching_ctx = [''/opt/lua'']"
    by (simp_all add: watching_def watched_dirs_def watching_ctx_def)
  have ap: "?r = (Returned (), fst (snd ?r), snd (snd ?r))"
    using example_add_package_dir by (simp add: prod_eq_iff)
  note H = hot_reload_on_lua_files
            [where e = example_env and msk = 2 and c = watching_ctx and w = example_world
               and path = "''/opt/skills''" and c' = "fst (snd ?r)" and w' = "snd (snd ?r)"]
  note R = H [THEN conjunct2, THEN conjunct2, THEN conjunct1]
  note F = H [THEN conjunct2, THEN conjunct2, THEN conjunct2, THEN conjunct1, THEN mp, OF wt]
  note P = H [THEN conjunct2, THEN conjunct2, THEN conjunct2, THEN conjunct2, THEN conjunct1,
              THEN mp, OF conjI [OF wt ap]]
  have m: "lua_module_name ''skill.lua''" "\<not> lua_module_name ''.skill.lua''"
    "\<not> lua_module_name ''notes.txt''"
    using R example_regex by blast+
  have f1: "file_changed example_env ''/opt/lua'' ''skill.lua'' 2 watching_ctx example_world
       = restart example_env watching_ctx example_world"
    unfolding F using wd m by simp
  have f2: "file_changed example_env ''/opt/lua'' ''.skill.lua'' 2 watching_ctx example_world
       = (Returned (), watching_ctx, example_world)"
    unfolding F using wd m by simp
  have f3: "file_changed example_env ''/opt/lua'' ''notes.txt'' 2 watching_ctx example_world
       = (Returned (), watching_ctx, example_world)"
    unfolding F using wd m by simp
  have f4: "file_changed example_env ''/tmp'' ''skill.lua'' 2 watching_ctx example_world
       = (Returned (), watching_ctx, example_world)"
    unfolding F using wd m by simp
  have f5: "set (watched_dirs (fst (snd ?r))) = {''/opt/skills'', ''/opt/lua''}"
    using P wd by simp
  from wt example_regex f1 f2 f3 f4 f5 example_add_package_dir show ?thesis
    by (intro conjI)
qed

section \<open>The order of the callbacks\<close>

lemma example_init_state:
  "fst (init_state example_env example_ctx example_world) = Returned 1"
  "stack (heap (snd (init_state example_env example_ctx example_world)) 1)
     = [LLibFunction ''debug'' ''traceback'', LString (package_path_code ''/opt/lua''),
        LString (package_cpath_code ''/opt/lib''), LString (require_code ''fawkesutils''),
        LString ''init'', LString ''init'', LString ''/opt/start.lua'']"
  "trace (snd (init_state example_env example_ctx example_world))
     = [DoString 1 (package_path_code ''/opt/lua''),
        DoString 1 (package_cpath_code ''/opt/lib''),
        DoString 1 (require_code ''fawkesutils''),
        Init 7 1, Init 8 1, DoFile 1 ''/opt/start.lua'']"
  by (simp_all add: init_state_defs lua_api_defs example_env_def example_ctx_def
      example_world_def)

lemma init_state_phases:
  assumes i: "init_state e c w = (Returned L, w1)"
  shows "\<exists>wr w2.
      replay e c L (snd (open_state c w)) = (Returned (), wr)
    \<and> none_throws (lua_init e) (watchers c) (heap wr L)
    \<and> heap w2 L = notified (lua_init e) (watchers c) (heap wr L)
    \<and> trace w2 = trace w @ replay_events c L @ map (\<lambda>i. Init i L) (watchers c)
    \<and> (start_script c = None \<longrightarrow> w1 = w2)
    \<and> (\<forall>s. start_script c = Some s \<longrightarrow>
          run_script e c L s w2 = (Returned (), w1)
          \<and> trace w1 = trace w2 @ [script_event e L s]
          \<and> (documented_status e s (heap w2 L) \<longrightarrow>
                script_ok e c s (heap w2 L) \<and> heap w1 L = script_state e c s (heap w2 L)))"
proof -
  from init_state_Returned(2) [OF i] obtain wr w2 where
    1: "replay e c L (snd (open_state c w)) = (Returned (), wr)" and
    2: "init_watchers e L (watchers c) wr = (Returned (), w2)" and
    3: "(case start_script c of None \<Rightarrow> (Returned (), w2)
         | Some script \<Rightarrow> run_script e c L script w2) = (Returned (), w1)"
    by blast
  note n = init_watchers_notified [OF 2]
  have t: "trace w2 = trace w @ replay_events c L @ map (\<lambda>i. Init i L) (watchers c)"
    using replay_Returned(1) [OF 1] init_watchers_Returned [OF 2] by simp
  have a: "w1 = w2" if "start_script c = None"
    using 3 that by simp
  have b: "run_script e c L s w2 = (Returned (), w1)
          \<and> trace w1 = trace w2 @ [script_event e L s]
          \<and> (documented_status e s (heap w2 L) \<longrightarrow>
                script_ok e c s (heap w2 L) \<and> heap w1 L = script_state e c s (heap w2 L))"
    if s: "start_script c = Some s" for s
  proof -
    from 3 s have r: "run_script e c L s w2 = (Returned (), w1)" by simp
    then have f: "fst (run_script e c L s w2) = Returned ()" by simp
    have "trace w1 = trace w2 @ [script_event e L s]"
      using trace_run_script [of e c L s w2] r by simp
    moreover have "script_ok e c s (heap w2 L) \<and> heap w1 L = script_state e c s (heap w2 L)"
      if "documented_status e s (heap w2 L)"
    proof -
      from run_script_Returned [OF f that] have ok: "script_ok e c s (heap w2 L)" .
      from run_script_ok(2) [OF ok] r ok show ?thesis by simp
    qed
    ultimately show ?thesis using r by blast
  qed
  from a have A: "start_script c = None \<longrightarrow> w1 = w2" by blast
  from b have B: "\<forall>s. start_script c = Some s \<longrightarrow>
          run_script e c L s w2 = (Returned (), w1)
          \<and> trace w1 = trace w2 @ [script_event e L s]
          \<and> (documented_status e s (heap w2 L) \<longrightarrow>
                script_ok e c s (heap w2 L) \<and> heap w1 L = script_state e c s (heap w2 L))"
    by blast
  show ?thesis
    by (rule exI [of _ wr], rule exI [of _ w2])
       (intro conjI 1 conjunct1 [OF n] conjunct2 [OF n] t A B)
qed

text \<open>
  Claim C3, for watchers whose \<^verbatim>\<open>lua_finalize\<close> and \<^verbatim>\<open>lua_restarted\<close> throw
  nothing but \<^verbatim>\<open>Exception\<close>s. Whenever \<^verbatim>\<open>init_state\<close> returns the new state
  \<open>L\<close>: every watcher's \<^verbatim>\<open>lua_init\<close> has been applied, in order and without
  throwing, to the new state as the replay left it; the start script has then been run on
  the state they left; the old state was not touched meanwhile. \<^verbatim>\<open>restart\<close>
  returns with \<open>L\<close> as the current state, whatever the callbacks throw; every watcher's
  \<^verbatim>\<open>lua_finalize\<close> has been applied in order to the old state, which has then been
  closed; and every watcher's \<^verbatim>\<open>lua_restarted\<close> has been applied in order to the
  new state as \<^verbatim>\<open>init_state\<close> left it. The calls were made in this order: replay,
  \<^verbatim>\<open>lua_init\<close>, start script, \<^verbatim>\<open>lua_finalize\<close>, close,
  \<^verbatim>\<open>lua_restarted\<close>.
\<close>

theorem restart_callback_order:
  assumes "init_state e c w = (Returned L, w1)" and "ctx_L c < next_ref w"
    and "throws_Exceptions_only (lua_finalize e)"
    and "throws_Exceptions_only (lua_restarted e)"
  shows "\<exists>wr (w2::world) w'.
      replay e c L (snd (open_state c w)) = (Returned (), wr)
    \<and> none_throws (lua_init e) (watchers c) (heap wr L)
    \<and> heap w2 L = notified (lua_init e) (watchers c) (heap wr L)
    \<and> (start_script c = None \<longrightarrow> heap w1 L = heap w2 L)
    \<and> (\<forall>s. start_script c = Some s \<and> documented_status e s (heap w2 L) \<longrightarrow>
          script_ok e c s (heap w2 L) \<and> heap w1 L = script_state e c s (heap w2 L))
    \<and> heap w1 (ctx_L c) = heap w (ctx_L c)
    \<and> restart e c w = (Returned (), c\<lparr>ctx_L := L\<rparr>, w')
    \<and> heap w' (ctx_L c) = lua_close (notified (lua_finalize e) (watchers c) (heap w (ctx_L c)))
    \<and> heap w' L = notified (lua_restarted e) (watchers c) (heap w1 L)
    \<and> trace w' = trace w
         @ replay_events c L
         @ map (\<lambda>i. Init i L) (watchers c)
         @ script_events e c L
         @ map (\<lambda>i. Finalize i (ctx_L c)) (watchers c)
         @ [Close (ctx_L c)]
         @ map (\<lambda>i. Restarted i L) (watchers c)"
proof -
  have L: "L = next_ref w" by (rule init_state_Returned(1) [OF assms(1)])
  with assms(2) have ne: "ctx_L c \<noteq> L" by simp
  from init_state_phases [OF assms(1)] obtain wr and w2 :: world where
    p: "replay e c L (snd (open_state c w)) = (Returned (), wr)"
      "none_throws (lua_init e) (watchers c) (heap wr L)"
      "heap w2 L = notified (lua_init e) (watchers c) (heap wr L)"
      "trace w2 = trace w @ replay_events c L @ map (\<lambda>i. Init i L) (watchers c)"
      "start_script c = None \<longrightarrow> w1 = w2"
      "\<forall>s. start_script c = Some s \<longrightarrow>
          run_script e c L s w2 = (Returned (), w1)
          \<and> trace w1 = trace w2 @ [script_event e L s]
          \<and> (documented_status e s (heap w2 L) \<longrightarrow>
                script_ok e c s (heap w2 L) \<and> heap w1 L = script_state e c s (heap w2 L))"
    by (elim exE conjE) (rule that)
  from restart_returns [OF assms(1) assms(3) assms(4)] obtain w' where
    r: "restart e c w = (Returned (), c\<lparr>ctx_L := L\<rparr>, w')" ..
  note R = restart_Returned [OF assms(1) r]
  have h: "heap w1 (ctx_L c) = heap w (ctx_L c)"
    using heap_init_state_other [of "ctx_L c" w e c] assms(1) ne L by simp
  from p(5) have a: "start_script c = None \<longrightarrow> heap w1 L = heap w2 L" by auto
  from p(6) have b: "\<forall>s. start_script c = Some s \<and> documented_status e s (heap w2 L) \<longrightarrow>
          script_ok e c s (heap w2 L) \<and> heap w1 L = script_state e c s (heap w2 L)"
    by blast
  from R(2) have t: "trace w' = trace w
         @ replay_events c L
         @ map (\<lambda>i. Init i L) (watchers c)
         @ script_events e c L
         @ map (\<lambda>i. Finalize i (ctx_L c)) (watchers c)
         @ [Close (ctx_L c)]
         @ map (\<lambda>i. Restarted i L) (watchers c)"
    by (simp add: init_events_def swap_events_def)
  show ?thesis
    by (rule exI [of _ wr], rule exI [of _ w2], rule exI [of _ w'])
       (intro conjI p(1) p(2) p(3) a b h r R(3) [OF ne] R(4) [OF ne] t)
qed

lemma example_throws_Exceptions_only:
  "throws_Exceptions_only (lua_finalize example_env)"
  "throws_Exceptions_only (lua_restarted example_env)"
  by (simp_all add: throws_Exceptions_only_def example_env_def)

lemma example_events:
  "script_events example_env example_ctx L = [DoFile L ''/opt/start.lua'']"
  "replay_events example_ctx L
     = [DoString L (package_path_code ''/opt/lua''),
        DoString L (package_cpath_code ''/opt/lib''),
        DoString L (require_code ''fawkesutils'')]"
  by (simp_all add: script_events_def script_event_def replay_events_def example_env_def
      example_ctx_def)

lemma example_fields:
  "watchers example_ctx = [7, 8]" "ctx_L example_ctx = 0" "trace example_world = []"
  "next_ref example_world = 1" "owns_L example_ctx" "enable_tracebacks example_ctx"
  "start_script example_ctx = Some ''/opt/start.lua''"
  "package_dirs example_ctx = [''/opt/lua'']" "cpackage_dirs example_ctx = [''/opt/lib'']"
  "packages example_ctx = [''fawkesutils'']"
  "stack (heap example_world 0) = [LLibFunction ''debug'' ''traceback'']"
  "is_open (heap example_world 0)"
  by (simp_all add: example_ctx_def example_world_def luaL_openlibs_def new_lua_State_def)

theorem restart_callback_order_witness:
  "fst (init_state example_env example_ctx example_world) = Returned 1
   \<and> ctx_L example_ctx < next_ref example_world
   \<and> throws_Exceptions_only (lua_finalize example_env)
   \<and> throws_Exceptions_only (lua_restarted example_env)
   \<and> (\<exists>w'. restart example_env example_ctx example_world
              = (Returned (), example_ctx\<lparr>ctx_L := 1\<rparr>, w')
         \<and> trace w' =
             [DoString 1 (package_path_code ''/opt/lua''),
              DoString 1 (package_cpath_code ''/opt/lib''),
              DoString 1 (require_code ''fawkesutils''),
              Init 7 1, Init 8 1, DoFile 1 ''/opt/start.lua'',
              Finalize 7 0, Finalize 8 0, Close 0, Restarted 7 1, Restarted 8 1]
         \<and> stack (heap w' 0)
             = [LLibFunction ''debug'' ''traceback'', LString ''bye'', LString ''bye'']
         \<and> \<not> is_open (heap w' 0)
         \<and> stack (heap w' 1)
             = [LLibFunction ''debug'' ''traceback'', LString (package_path_code ''/opt/lua''),
                LString (package_cpath_code ''/opt/lib''),
                LString (require_code ''fawkesutils''),
                LString ''init'', LString ''init'', LString ''/opt/start.lua'',
                LString ''hello'', LString ''hello''])
   \<and> stack (heap (snd (snd (restart example_env example_ctx example_world))) 0)
       = [LLibFunction ''debug'' ''traceback'', LString ''bye'', LString ''bye'']
   \<and> stack (heap (snd (snd (restart example_env example_ctx example_world))) 1)
       = [LLibFunction ''debug'' ''traceback'', LString (package_path_code ''/opt/lua''),
          LString (package_cpath_code ''/opt/lib''), LString (require_code ''fawkesutils''),
          LString ''init'', LString ''init'', LString ''/opt/start.lua'',
          LString ''hello'', LString ''hello'']"
proof -
  let ?w1 = "snd (init_state example_env example_ctx example_world)"
  have D: "fst (init_state example_env example_ctx example_world) = Returned 1"
    "stack (heap (snd (snd (restart example_env example_ctx example_world))) 0)
       = [LLibFunction ''debug'' ''traceback'', LString ''bye'', LString ''bye'']"
    "stack (heap (snd (snd (restart example_env example_ctx example_world))) 1)
       = [LLibFunction ''debug'' ''traceback'', LString (package_path_code ''/opt/lua''),
          LString (package_cpath_code ''/opt/lib''), LString (require_code ''fawkesutils''),
          LString ''init'', LString ''init'', LString ''/opt/start.lua'',
          LString ''hello'', LString ''hello'']"
    by (simp_all add: restart_defs init_state_defs lua_api_defs example_env_def example_ctx_def
        example_world_def)
  have i: "init_state example_env example_ctx example_world = (Returned 1, ?w1)"
    using D(1) by (simp add: prod_eq_iff)
  have lt: "ctx_L example_ctx < next_ref example_world"
    by (simp add: example_fields)
  from restart_callback_order [OF i lt example_throws_Exceptions_only] obtain w' where
    r: "restart example_env example_ctx example_world
          = (Returned (), example_ctx\<lparr>ctx_L := 1\<rparr>, w')" and
    h0: "heap w' (ctx_L example_ctx)
          = lua_close (notified (lua_finalize example_env) (watchers example_ctx)
                        (heap example_world (ctx_L example_ctx)))" and
    h1: "heap w' 1 = notified (lua_restarted example_env) (watchers example_ctx) (heap ?w1 1)" and
    t: "trace w' = trace example_world
         @ replay_events example_ctx 1
         @ map (\<lambda>i. Init i 1) (watchers example_ctx)
         @ script_events example_env example_ctx 1
         @ map (\<lambda>i. Finalize i (ctx_L example_ctx)) (watchers example_ctx)
         @ [Close (ctx_L example_ctx)]
         @ map (\<lambda>i. Restarted i 1) (watchers example_ctx)"
    by blast
  from h0 have s0: "stack (heap w' 0)
             = [LLibFunction ''debug'' ''traceback'', LString ''bye'', LString ''bye'']"
    "\<not> is_open (heap w' 0)"
    by (simp_all add: example_fields example_env_def lua_push_def lua_close_def)
  from h1 example_init_state(2) have s1: "stack (heap w' 1)
             = [LLibFunction ''debug'' ''traceback'', LString (package_path_code ''/opt/lua''),
                LString (package_cpath_code ''/opt/lib''),
                LString (require_code ''fawkesutils''),
                LString ''init'', LString ''init'', LString ''/opt/start.lua'',
                LString ''hello'', LString ''hello'']"
    by (simp add: example_fields example_env_def lua_push_def)
  from t have t': "trace w' =
             [DoString 1 (package_path_code ''/opt/lua''),
              DoString 1 (package_cpath_code ''/opt/lib''),
              DoString 1 (require_code ''fawkesutils''),
              Init 7 1, Init 8 1, DoFile 1 ''/opt/start.lua'',
              Finalize 7 0, Finalize 8 0, Close 0, Restarted 7 1, Restarted 8 1]"
    by (simp add: example_fields example_events)
  from r t' s0 s1 have P: "\<exists>w'. restart example_env example_ctx example_world
              = (Returned (), example_ctx\<lparr>ctx_L := 1\<rparr>, w')
         \<and> trace w' =
             [DoString 1 (package_path_code ''/opt/lua''),
              DoString 1 (package_cpath_code ''/opt/lib''),
              DoString 1 (require_code ''fawkesutils''),
              Init 7 1, Init 8 1, DoFile 1 ''/opt/start.lua'',
              Finalize 7 0, Finalize 8 0, Close 0, Restarted 7 1, Restarted 8 1]
         \<and> stack (heap w' 0)
             = [LLibFunction ''debug'' ''traceback'', LString ''bye'', LString ''bye'']
         \<and> \<not> is_open (heap w' 0)
         \<and> stack (heap w' 1)
             = [LLibFunction ''debug'' ''traceback'', LString (package_path_code ''/opt/lua''),
                LString (package_cpath_code ''/opt/lib''),
                LString (require_code ''fawkesutils''),
                LString ''init'', LString ''init'', LString ''/opt/start.lua'',
                LString ''hello'', LString ''hello'']"
    by blast
  show ?thesis
    by (intro conjI D(1) lt example_throws_Exceptions_only P D(2) D(3))
qed

text \<open>
  Claim C3 says that what \<^verbatim>\<open>lua_finalize\<close> or \<^verbatim>\<open>lua_restarted\<close> throws is
  swallowed and does not abort the sequence. The handlers are
  \<^verbatim>\<open>catch (Exception &e)\<close>: when the first watcher's \<^verbatim>\<open>lua_finalize\<close> throws
  a \<^verbatim>\<open>std::bad_alloc\<close>, the second watcher is not finalized, the old state is
  neither swapped out nor closed, no \<^verbatim>\<open>lua_restarted\<close> is called, and the exception
  leaves \<^verbatim>\<open>restart\<close>.
\<close>

theorem restart_foreign_throw_counterexample:
  "fst (init_state foreign_throw_env example_ctx example_world) = Returned 1
   \<and> fst (restart foreign_throw_env example_ctx example_world)
       = Threw (Not_Exception ''std::bad_alloc'')
   \<and> fst (snd (restart foreign_throw_env example_ctx example_world)) = example_ctx
   \<and> trace (snd (snd (restart foreign_throw_env example_ctx example_world)))
       = [DoString 1 (package_path_code ''/opt/lua''),
          DoString 1 (package_cpath_code ''/opt/lib''),
          DoString 1 (require_code ''fawkesutils''),
          Init 7 1, Init 8 1, DoFile 1 ''/opt/start.lua'', Finalize 7 0]
   \<and> is_open (heap (snd (snd (restart foreign_throw_env example_ctx example_world))) 0)"
proof -
  let ?w1 = "snd (init_state foreign_throw_env example_ctx example_world)"
  have f: "fst (init_state foreign_throw_env example_ctx example_world) = Returned 1"
    "trace ?w1
     = [DoString 1 (package_path_code ''/opt/lua''),
        DoString 1 (package_cpath_code ''/opt/lib''),
        DoString 1 (require_code ''fawkesutils''),
        Init 7 1, Init 8 1, DoFile 1 ''/opt/start.lua'']"
    "is_open (heap ?w1 0)"
    by (simp_all add: init_state_defs lua_api_defs foreign_throw_env_def example_env_def
        example_ctx_def example_world_def)
  then have i: "init_state foreign_throw_env example_ctx example_world = (Returned 1, ?w1)"
    by (simp add: prod_eq_iff)
  have n: "finalize_watchers foreign_throw_env 0 [7, 8] ?w1
             = (Threw (Not_Exception ''std::bad_alloc''),
                on_state 0 (\<lambda>u. heap ?w1 0) (emit (Finalize 7 0) ?w1))"
    by (simp add: finalize_watchers_def run_on_eq foreign_throw_env_def example_env_def)
  from restart_init_Returned [OF i] n f show ?thesis
    by (simp add: example_fields)
qed

section \<open>Code that leaves the globals alone\<close>

lemma globals_lua_settop [simp]: "globals (lua_settop n s) = globals s"
  by (simp add: lua_settop_def)

lemma globals_lua_pop [simp]: "globals (lua_pop n s) = globals s"
  by (simp add: lua_pop_def)













section \<open>The replay\<close>






lemma example_restart:
  "fst (restart example_env example_ctx example_world) = Returned ()"
proof -
  have i: "init_state example_env example_ctx example_world
             = (Returned 1, snd (init_state example_env example_ctx example_world))"
    using example_init_state(1) by (simp add: prod_eq_iff)
  from restart_returns [OF i example_throws_Exceptions_only] show ?thesis by auto
qed



section \<open>The start script\<close>





section \<open>Construction and destruction\<close>

lemma LuaContext_new_eq:
  "\<exists>c0. LuaContext_new e watch_dirs tb w = (Returned c0, snd (open_state c0 w))
     \<and> owns_L c0 \<and> ctx_L c0 = next_ref w \<and> watchers c0 = [] \<and> enable_tracebacks c0 = tb"
  by (simp add: LuaContext_new_def init_state_def open_state_def newstate_def replay_def
      replay_bindings_def Let_def)

lemma LuaContext_delete_owner:
  assumes "owns_L c" and "throws_Exceptions_only (lua_finalize e)"
  shows "\<exists>w'. LuaContext_delete e c w = (Returned (), w')
           \<and> trace w' = trace w @ map (\<lambda>i. Finalize i (ctx_L c)) (watchers c) @ [Close (ctx_L c)]
           \<and> heap w' (ctx_L c)
               = lua_close (notified (lua_finalize e) (watchers c) (heap w (ctx_L c)))
           \<and> \<not> is_open (heap w' (ctx_L c))
           \<and> (\<forall>L'. L' \<noteq> ctx_L c \<longrightarrow> heap w' L' = heap w L')"
proof -
  obtain w2 where 2: "finalize_watchers e (ctx_L c) (watchers c) w = (Returned (), w2)"
    using notify_watchers_returns [OF assms(2), of "\<lambda>i. Finalize i (ctx_L c)" "ctx_L c"
        "watchers c" w]
    by (cases "finalize_watchers e (ctx_L c) (watchers c) w")
       (simp add: finalize_watchers_def)
  note f = notify_watchers_Returned [OF 2 [unfolded finalize_watchers_def]]
  have o: "heap w2 L' = heap w L'" if "L' \<noteq> ctx_L c" for L'
    using heap_notify_watchers_other [OF that, of "\<lambda>i. Finalize i (ctx_L c)" "lua_finalize e"
        "watchers c" w] 2
    by (simp add: finalize_watchers_def)
  let ?w' = "close_state (ctx_L c) w2"
  have 1: "LuaContext_delete e c w = (Returned (), ?w')"
    using assms(1) 2 by (simp add: LuaContext_delete_def)
  have 3: "trace ?w' = trace w @ map (\<lambda>i. Finalize i (ctx_L c)) (watchers c) @ [Close (ctx_L c)]"
    using f by simp
  have 4: "heap ?w' (ctx_L c)
               = lua_close (notified (lua_finalize e) (watchers c) (heap w (ctx_L c)))"
    using f by simp
  have 5: "\<not> is_open (heap ?w' (ctx_L c))"
    by (simp add: lua_close_def)
  have 6: "\<forall>L'. L' \<noteq> ctx_L c \<longrightarrow> heap ?w' L' = heap w L'"
    using o by simp
  show ?thesis
    by (rule exI [of _ ?w']) (intro conjI 1 3 4 5 6)
qed

text \<open>
  Claim C7, for watchers whose \<^verbatim>\<open>lua_finalize\<close> throws nothing but
  \<^verbatim>\<open>Exception\<close>s. The default constructor returns a context that owns a state it
  has just created and opened, and destroying that context closes the state. The
  destructor of any context that owns its state applies every watcher's
  \<^verbatim>\<open>lua_finalize\<close>, in order, to that state and then closes it, and touches no
  other state. The wrapper constructor makes a context around the given state that does
  not own it, and the destructor of a context that does not own its state changes
  nothing: no callback, no close, every interpreter state as it was.
\<close>

theorem destructor_follows_ownership:
  "(\<exists>c0 w1. LuaContext_new e watch_dirs tb w0 = (Returned c0, w1)
        \<and> owns_L c0 \<and> ctx_L c0 = next_ref w0
        \<and> is_open (heap w1 (ctx_L c0))
        \<and> fst (LuaContext_delete e c0 w1) = Returned ()
        \<and> heap (snd (LuaContext_delete e c0 w1)) (ctx_L c0) = lua_close (heap w1 (ctx_L c0)))
   \<and> (owns_L c \<and> throws_Exceptions_only (lua_finalize e) \<longrightarrow>
        (\<exists>w'. LuaContext_delete e c w = (Returned (), w')
           \<and> trace w' = trace w @ map (\<lambda>i. Finalize i (ctx_L c)) (watchers c) @ [Close (ctx_L c)]
           \<and> heap w' (ctx_L c)
               = lua_close (notified (lua_finalize e) (watchers c) (heap w (ctx_L c)))
           \<and> \<not> is_open (heap w' (ctx_L c))
           \<and> (\<forall>L'. L' \<noteq> ctx_L c \<longrightarrow> heap w' L' = heap w L')))
   \<and> \<not> owns_L (LuaContext_wrap tb' L) \<and> ctx_L (LuaContext_wrap tb' L) = L
   \<and> (\<not> owns_L c \<longrightarrow> LuaContext_delete e c w = (Returned (), w))"
proof (intro conjI impI)
  from LuaContext_new_eq [of e watch_dirs tb w0] obtain c0 where
    n: "LuaContext_new e watch_dirs tb w0 = (Returned c0, snd (open_state c0 w0))"
      "owns_L c0" "ctx_L c0 = next_ref w0" "watchers c0 = []"
    by blast
  let ?w1 = "snd (open_state c0 w0)"
  have o: "is_open (heap ?w1 (ctx_L c0))"
    unfolding n(3) by simp
  have d: "LuaContext_delete e c0 ?w1 = (Returned (), close_state (ctx_L c0) ?w1)"
    using n(2) n(4) by (simp add: LuaContext_delete_def finalize_watchers_def)
  have d1: "fst (LuaContext_delete e c0 ?w1) = Returned ()"
    and d2: "heap (snd (LuaContext_delete e c0 ?w1)) (ctx_L c0) = lua_close (heap ?w1 (ctx_L c0))"
    unfolding d by simp_all
  show "\<exists>c0 w1. LuaContext_new e watch_dirs tb w0 = (Returned c0, w1)
        \<and> owns_L c0 \<and> ctx_L c0 = next_ref w0
        \<and> is_open (heap w1 (ctx_L c0))
        \<and> fst (LuaContext_delete e c0 w1) = Returned ()
        \<and> heap (snd (LuaContext_delete e c0 w1)) (ctx_L c0) = lua_close (heap w1 (ctx_L c0))"
    by (rule exI [of _ c0], rule exI [of _ ?w1]) (intro conjI n(1) n(2) n(3) o d1 d2)
next
  assume "owns_L c \<and> throws_Exceptions_only (lua_finalize e)"
  then show "\<exists>w'. LuaContext_delete e c w = (Returned (), w')
           \<and> trace w' = trace w @ map (\<lambda>i. Finalize i (ctx_L c)) (watchers c) @ [Close (ctx_L c)]
           \<and> heap w' (ctx_L c)
               = lua_close (notified (lua_finalize e) (watchers c) (heap w (ctx_L c)))
           \<and> \<not> is_open (heap w' (ctx_L c))
           \<and> (\<forall>L'. L' \<noteq> ctx_L c \<longrightarrow> heap w' L' = heap w L')"
    using LuaContext_delete_owner by blast
next
  show "\<not> owns_L (LuaContext_wrap tb' L)" "ctx_L (LuaContext_wrap tb' L) = L"
    by (simp_all add: LuaContext_wrap_def)
next
  assume "\<not> owns_L c"
  then show "LuaContext_delete e c w = (Returned (), w)"
    by (simp add: LuaContext_delete_def)
qed

theorem destructor_follows_ownership_witness:
  "(\<exists>c0 w1. LuaContext_new example_env True True empty_world = (Returned c0, w1)
        \<and> owns_L c0 \<and> ctx_L c0 = 0 \<and> is_open (heap w1 0)
        \<and> fst (LuaContext_delete example_env c0 w1) = Returned ()
        \<and> \<not> is_open (heap (snd (LuaContext_delete example_env c0 w1)) 0))
   \<and> owns_L example_ctx
   \<and> throws_Exceptions_only (lua_finalize example_env)
   \<and> (\<exists>w'. LuaContext_delete example_env example_ctx example_world = (Returned (), w')
         \<and> trace w' = [Finalize 7 0, Finalize 8 0, Close 0]
         \<and> stack (heap w' 0) = [LLibFunction ''debug'' ''traceback'', LString ''bye'', LString ''bye'']
         \<and> \<not> is_open (heap w' 0))
   \<and> \<not> owns_L (add_watcher 7 (LuaContext_wrap False 0))
   \<and> LuaContext_delete example_env (add_watcher 7 (LuaContext_wrap False 0)) example_world
       = (Returned (), example_world)
   \<and> stack (heap (snd (LuaContext_delete example_env example_ctx example_world)) 0)
       = [LLibFunction ''debug'' ''traceback'', LString ''bye'', LString ''bye'']
   \<and> \<not> is_open (heap (snd (LuaContext_delete example_env example_ctx example_world)) 0)
   \<and> is_open (heap (snd (LuaContext_new example_env True True example_world)) 1)
   \<and> \<not> is_open (heap example_world 1)"
proof -
  have D: "stack (heap (snd (LuaContext_delete example_env example_ctx example_world)) 0)
       = [LLibFunction ''debug'' ''traceback'', LString ''bye'', LString ''bye'']"
    "\<not> is_open (heap (snd (LuaContext_delete example_env example_ctx example_world)) 0)"
    "is_open (heap (snd (LuaContext_new example_env True True example_world)) 1)"
    "\<not> is_open (heap example_world 1)"
    by (simp_all add: restart_defs LuaContext_new_def init_state_defs lua_api_defs
        no_lua_State_def example_env_def example_ctx_def example_world_def)
  note A = destructor_follows_ownership
             [where e = example_env and watch_dirs = True and tb = True and ?w0.0 = empty_world
                and c = example_ctx and w = example_world and tb' = False and L = 0]
  note B = destructor_follows_ownership
             [where e = example_env and watch_dirs = True and tb = True and ?w0.0 = empty_world
                and c = "add_watcher 7 (LuaContext_wrap False 0)" and w = example_world
                and tb' = False and L = 0]
  from A [THEN conjunct1] obtain c0 w1 where
    n: "LuaContext_new example_env True True empty_world = (Returned c0, w1)"
      "owns_L c0" "ctx_L c0 = next_ref empty_world" "is_open (heap w1 (ctx_L c0))"
      "fst (LuaContext_delete example_env c0 w1) = Returned ()"
      "heap (snd (LuaContext_delete example_env c0 w1)) (ctx_L c0) = lua_close (heap w1 (ctx_L c0))"
    by (elim exE conjE) (rule that)
  have z: "ctx_L c0 = 0" using n(3) by (simp add: empty_world_def)
  from n(4) n(6) have "is_open (heap w1 0)"
    "\<not> is_open (heap (snd (LuaContext_delete example_env c0 w1)) 0)"
    unfolding z by (simp_all add: lua_close_def)
  with n(1) n(2) n(5) z have P1: "\<exists>c0 w1. LuaContext_new example_env True True empty_world
          = (Returned c0, w1)
        \<and> owns_L c0 \<and> ctx_L c0 = 0 \<and> is_open (heap w1 0)
        \<and> fst (LuaContext_delete example_env c0 w1) = Returned ()
        \<and> \<not> is_open (heap (snd (LuaContext_delete example_env c0 w1)) 0)"
    by blast
  have own: "owns_L example_ctx" by (simp add: example_fields)
  from A [THEN conjunct2, THEN conjunct1, THEN mp,
          OF conjI [OF own example_throws_Exceptions_only(1)]]
  obtain w' where
    d: "LuaContext_delete example_env example_ctx example_world = (Returned (), w')"
      "trace w' = trace example_world
         @ map (\<lambda>i. Finalize i (ctx_L example_ctx)) (watchers example_ctx)
         @ [Close (ctx_L example_ctx)]"
      "heap w' (ctx_L example_ctx)
         = lua_close (notified (lua_finalize example_env) (watchers example_ctx)
                       (heap example_world (ctx_L example_ctx)))"
    by (elim exE conjE) (rule that)
  from d(2) have t: "trace w' = [Finalize 7 0, Finalize 8 0, Close 0]"
    by (simp add: example_fields)
  from d(3) have s: "stack (heap w' 0)
      = [LLibFunction ''debug'' ''traceback'', LString ''bye'', LString ''bye'']"
    "\<not> is_open (heap w' 0)"
    by (simp_all add: example_fields example_env_def lua_push_def lua_close_def)
  from d(1) t s have P2: "\<exists>w'. LuaContext_delete example_env example_ctx example_world
           = (Returned (), w')
         \<and> trace w' = [Finalize 7 0, Finalize 8 0, Close 0]
         \<and> stack (heap w' 0) = [LLibFunction ''debug'' ''traceback'', LString ''bye'', LString ''bye'']
         \<and> \<not> is_open (heap w' 0)"
    by blast
  have no: "\<not> owns_L (add_watcher 7 (LuaContext_wrap False 0))"
    by (simp add: add_watcher_def LuaContext_wrap_def)
  from B [THEN conjunct2, THEN conjunct2, THEN conjunct2, THEN conjunct2, THEN mp, OF no]
  have P3: "LuaContext_delete example_env (add_watcher 7 (LuaContext_wrap False 0)) example_world
       = (Returned (), example_world)" .
  show ?thesis
    by (intro conjI P1 own example_throws_Exceptions_only(1) P2 no P3 D)
qed

text \<open>
  Claim C7 says that the destructor of an owning context notifies every watcher and closes
  the state. The handler in the destructor is \<^verbatim>\<open>catch (Exception &e)\<close>: when the
  first watcher's \<^verbatim>\<open>lua_finalize\<close> throws a \<^verbatim>\<open>std::bad_alloc\<close>, the exception
  leaves the destructor, the second watcher is not notified and the state is not closed.
\<close>

theorem destructor_foreign_throw_counterexample:
  "owns_L example_ctx
   \<and> watchers example_ctx = [7, 8]
   \<and> fst (LuaContext_delete foreign_throw_env example_ctx example_world)
       = Threw (Not_Exception ''std::bad_alloc'')
   \<and> trace (snd (LuaContext_delete foreign_throw_env example_ctx example_world))
       = [Finalize 7 0]
   \<and> is_open (heap (snd (LuaContext_delete foreign_throw_env example_ctx example_world)) 0)"
  by (simp add: LuaContext_delete_def finalize_watchers_def run_on_eq foreign_throw_env_def
      example_env_def example_fields)

section \<open>Packages\<close>

lemma require_code_inject [simp]: "require_code p = require_code q \<longleftrightarrow> p = q"
  by (simp add: require_code_def)

lemma require_code_not_path [simp]:
  "package_path_code d \<noteq> require_code p" "package_cpath_code d \<noteq> require_code p"
  "require_code p \<noteq> package_path_code d" "require_code p \<noteq> package_cpath_code d"
  by (simp_all add: require_code_def package_path_code_def package_cpath_code_def)



lemma count_list_append [simp]: "count_list (xs @ ys) x = count_list xs x + count_list ys x"
  by (induction xs) auto









end
